theory Spec2Isabelle
  imports Complex_Main "HOL-Library.Multiset"
begin

section \<open>The arcade physics world of \<open>src/physics/arcade/Arcade.js\<close>\<close>

text \<open>
  The class \<open>Arcade\<close> keeps references to JavaScript objects (bodies, colliders, pairs, game
  objects) in arrays and in a hash, and mutates the objects through these references. The
  model is therefore an explicit store: every object is named by a natural number, the
  arrays hold these names, and the world carries one heap per class, from names to the
  object's fields. Two references are the same object exactly when the names are equal,
  which is what \<open>===\<close>, \<open>indexOf\<close> and \<open>splice\<close> observe in the source.

  The leading underscores of the private methods (\<open>__addBody\<close>, \<open>__removePairs\<close>, ...) are
  dropped, since an Isabelle name cannot start with one.

  JavaScript numbers are kept abstract: the type variable \<open>'n\<close> carries only the
  operations the source applies (\<open>0\<close>, \<open>1\<close>, \<open>+\<close>, \<open>-\<close>, \<open>*\<close>) and no law about them, so every
  statement below holds for whatever arithmetic interprets them.
\<close>

subsection \<open>Objects\<close>

type_synonym bref = nat \<comment> \<open>a \<open>RigidBody\<close> object\<close>
type_synonym cref = nat \<comment> \<open>a \<open>Collider\<close> object\<close>
type_synonym pref = nat \<comment> \<open>a \<open>Pair\<close> object\<close>
type_synonym gref = nat \<comment> \<open>a \<open>GameObject\<close>\<close>

datatype 'n Vector = Vector (vx: 'n) (vy: 'n)

text \<open>
  \<open>RigidBody\<close>: the fields \<open>Arcade\<close> reads and writes. \<open>body_mPairs\<close> is the body's own
  \<open>mPairs\<close> array (the world has an array of the same name).
\<close>

record 'n RigidBody =
  mPosition :: "'n Vector"
  mVelocity :: "'n Vector"
  mForce :: "'n Vector"
  mInvMass :: 'n
  frictionAir :: 'n
  gameObject :: gref
  mCollider :: cref
  body_mPairs :: "pref list"

text \<open>
  \<open>Collider\<close>: \<open>isBox\<close> is the test \<open>instanceof BoxCollider\<close>; \<open>geometry\<close> stands for the
  cached shape data that only the colliders' and pairs' own methods read.
\<close>

record 'n Collider =
  isBox :: bool
  mChanged :: bool
  geometry :: "'n list"

text \<open>
  \<open>Pair\<close>: \<open>kind\<close> is the object's class (\<open>pair.constructor\<close>), \<open>pair_a\<close> and \<open>pair_b\<close> are the
  fields \<open>a\<close> and \<open>b\<close>. \<open>solverData\<close> stands for the per-step constants that \<open>preSolve\<close>
  stores in the pair.
\<close>

datatype pair_kind = BoxToBoxPair | CircleToCirclePair | BoxToCirclePair

record 'n Pair =
  kind :: pair_kind
  pair_a :: cref
  pair_b :: cref
  bodyA :: bref
  bodyB :: bref
  mInCollision :: bool
  mNormal :: "'n Vector"
  mOverlap :: 'n
  mNormalImpulse :: 'n
  mTangentImpulse :: 'n
  solverData :: "'n list"

text \<open>
  The world: the fields of \<open>Arcade\<close> that the modelled methods use, the three heaps, the
  part of the scene graph that \<open>Arcade\<close> reads (\<open>gameObject.mCollidersCache\<close> and
  \<open>gameObject.getComponent(RigidBody)\<close>), and the pools of the three pair classes.
  \<open>mPairsHash\<close> is the object used as a dictionary from pair ids to pairs.
\<close>

record 'n world =
  mBodies :: "bref list"
  mPairs :: "pref list"
  mContacts :: "pref list"
  mPairsHash :: "(cref \<times> cref) \<Rightarrow> pref option"
  gravity :: "'n Vector"
  iterations :: nat
  bodyHeap :: "bref \<Rightarrow> 'n RigidBody"
  colliderHeap :: "cref \<Rightarrow> 'n Collider"
  pairHeap :: "pref \<Rightarrow> 'n Pair"
  mCollidersCache :: "gref \<Rightarrow> cref list"
  rigidBodyOf :: "gref \<Rightarrow> bref option"
  pools :: "pair_kind \<Rightarrow> pref list"
  nextPair :: pref

subsection \<open>JavaScript arrays\<close>

text \<open>\<open>xs.indexOf(x)\<close>: the first index holding \<open>x\<close>, or \<open>-1\<close>.\<close>

fun indexOf :: "'a list \<Rightarrow> 'a \<Rightarrow> int" where
  "indexOf [] x = - 1"
| "indexOf (y # ys) x =
     (if y = x then 0
      else (let r = indexOf ys x in if r < 0 then - 1 else r + 1))"

text \<open>
  \<open>xs.splice(start, 1)\<close>: a negative \<open>start\<close> counts from the end of the array (and is
  clamped at 0), one beyond the end removes nothing.
\<close>

definition splice1 :: "'a list \<Rightarrow> int \<Rightarrow> 'a list" where
  "splice1 xs start =
     (let len = int (length xs);
          s = (if start < 0 then max (len + start) 0 else min start len)
      in take (nat s) xs @ drop (Suc (nat s)) xs)"

subsection \<open>Pair ids, pools and \<open>Pair.set\<close>\<close>

text \<open>
  Modelled from the spec: \<open>Pair.__id\<close> is not among the sources. The spec calls it a
  canonical unordered-pair identifier over two shape identities (compare the stable
  numeric ids and put the smaller first), so that \<open>(A, B)\<close> and \<open>(B, A)\<close> give one key.
\<close>

definition Pair_id :: "cref \<Rightarrow> cref \<Rightarrow> cref \<times> cref" where
  "Pair_id c d = (min c d, max c d)"

text \<open>
  Modelled from the spec: \<open>ObjectPool\<close> and the \<open>Pair\<close> constructor are not among the
  sources. A pool recycles released objects and allocates a new one only when none is
  free; a new pair is not in collision and has no accumulated impulse. \<open>release\<close> only
  returns the object to the free list: \<open>__removePairs\<close> still reads \<open>pair.a\<close>, \<open>pair.b\<close>,
  \<open>pair.bodyA\<close> and \<open>pair.bodyB\<close> after the release.
\<close>

definition Pair_new :: "pair_kind \<Rightarrow> ('n::zero) Pair" where
  "Pair_new k =
     \<lparr>kind = k, pair_a = 0, pair_b = 0, bodyA = 0, bodyB = 0, mInCollision = False,
      mNormal = Vector 0 0, mOverlap = 0, mNormalImpulse = 0, mTangentImpulse = 0,
      solverData = []\<rparr>"

definition pool_get :: "pair_kind \<Rightarrow> ('n::zero) world \<Rightarrow> pref \<times> 'n world" where
  "pool_get k w =
     (case pools w k of
        [] \<Rightarrow> (nextPair w,
               w\<lparr>pairHeap := (pairHeap w)(nextPair w := Pair_new k),
                 nextPair := Suc (nextPair w)\<rparr>)
      | _ # _ \<Rightarrow> (last (pools w k), w\<lparr>pools := (pools w)(k := butlast (pools w k))\<rparr>))"

definition pool_release :: "pref \<Rightarrow> 'n world \<Rightarrow> 'n world" where
  "pool_release p w =
     (let k = kind (pairHeap w p) in w\<lparr>pools := (pools w)(k := pools w k @ [p])\<rparr>)"

text \<open>
  Modelled from the spec: \<open>Pair.set(a, b, bodyA, bodyB)\<close> is not among the sources; it
  initialises the pair with the two shapes and their bodies.
\<close>

definition Pair_set :: "'n Pair \<Rightarrow> cref \<Rightarrow> cref \<Rightarrow> bref \<Rightarrow> bref \<Rightarrow> 'n Pair" where
  "Pair_set p c d bA bB = p\<lparr>pair_a := c, pair_b := d, bodyA := bA, bodyB := bB\<rparr>"

subsection \<open>Maintaining the pairs\<close>

definition push_body_pair :: "bref \<Rightarrow> pref \<Rightarrow> 'n world \<Rightarrow> 'n world" where
  "push_body_pair body p w =
     w\<lparr>bodyHeap := (bodyHeap w)
         (body := (bodyHeap w body)\<lparr>body_mPairs := body_mPairs (bodyHeap w body) @ [p]\<rparr>)\<rparr>"

text \<open>
  \<open>__addPair(a, b, bodyA, bodyB)\<close>, lines 301 to 329. \<open>pair_class\<close> is the choice of the
  pool, that is of the pair's class.
\<close>

definition pair_class :: "bool \<Rightarrow> bool \<Rightarrow> pair_kind" where
  "pair_class isBoxA isBoxB =
     (if isBoxA \<and> isBoxB then BoxToBoxPair
      else if \<not> isBoxA \<and> \<not> isBoxB then CircleToCirclePair
      else BoxToCirclePair)"

definition addPair :: "('n::zero) world \<Rightarrow> cref \<Rightarrow> cref \<Rightarrow> bref \<Rightarrow> bref \<Rightarrow> 'n world" where
  "addPair w c d bA bB =
     (let isBoxA = isBox (colliderHeap w c);
          isBoxB = isBox (colliderHeap w d);
          k = pair_class isBoxA isBoxB;
          (p, w1) = pool_get k w;
          swap = (k = BoxToCirclePair \<and> isBoxB);
          c' = (if swap then d else c);
          d' = (if swap then c else d);
          bA' = (if swap then bB else bA);
          bB' = (if swap then bA else bB);
          w2 = w1\<lparr>pairHeap := (pairHeap w1)(p := Pair_set (pairHeap w1 p) c' d' bA' bB')\<rparr>;
          w3 = w2\<lparr>mPairs := mPairs w2 @ [p]\<rparr>;
          w4 = w3\<lparr>mPairsHash := (mPairsHash w3)(Pair_id c' d' \<mapsto> p)\<rparr>
      in push_body_pair bB' p (push_body_pair bA' p w4))"

text \<open>
  \<open>__addPairs(collider, fromBody)\<close>, lines 272 to 290. The loops run over \<open>mBodies\<close> and
  over the colliders of each body, neither of which \<open>__addPair\<close> changes.
\<close>

definition addPairs_body :: "cref \<Rightarrow> bref \<Rightarrow> ('n::zero) world \<Rightarrow> bref \<Rightarrow> 'n world" where
  "addPairs_body collider fromBody w body =
     (if body = fromBody then w
      else (case mCollidersCache w (gameObject (bodyHeap w body)) of
              [] \<Rightarrow> addPair w collider (mCollider (bodyHeap w body)) fromBody body
            | c # cs \<Rightarrow> foldl (\<lambda>w' c'. addPair w' collider c' fromBody body) w (c # cs)))"

definition addPairs :: "('n::zero) world \<Rightarrow> cref \<Rightarrow> bref \<Rightarrow> 'n world" where
  "addPairs w collider fromBody =
     foldl (addPairs_body collider fromBody)
       (w\<lparr>colliderHeap := (colliderHeap w)
            (collider := (colliderHeap w collider)\<lparr>mChanged := True\<rparr>)\<rparr>)
       (mBodies w)"

text \<open>
  \<open>__removePairs(collider)\<close>, lines 337 to 354. The loop runs from the last index down
  to 0 and splices at the current index, so the indices still to visit keep their
  elements. \<open>removePairs_at\<close> is the loop body at index \<open>i\<close>.
\<close>

definition splice_body_pair :: "bref \<Rightarrow> pref \<Rightarrow> 'n world \<Rightarrow> 'n world" where
  "splice_body_pair body p w =
     w\<lparr>bodyHeap := (bodyHeap w)
         (body := (bodyHeap w body)
            \<lparr>body_mPairs := splice1 (body_mPairs (bodyHeap w body))
                               (indexOf (body_mPairs (bodyHeap w body)) p)\<rparr>)\<rparr>"

definition removePairs_at :: "cref \<Rightarrow> nat \<Rightarrow> 'n world \<Rightarrow> 'n world" where
  "removePairs_at collider i w =
     (let p = mPairs w ! i; pr = pairHeap w p
      in if pair_a pr = collider \<or> pair_b pr = collider
         then (let w1 = w\<lparr>mPairs := splice1 (mPairs w) (int i)\<rparr>;
                   w2 = pool_release p w1;
                   w3 = w2\<lparr>mPairsHash := (mPairsHash w2)(Pair_id (pair_a pr) (pair_b pr) := None)\<rparr>
               in splice_body_pair (bodyB pr) p (splice_body_pair (bodyA pr) p w3))
         else w)"

fun removePairs_loop :: "cref \<Rightarrow> nat \<Rightarrow> 'n world \<Rightarrow> 'n world" where
  "removePairs_loop collider 0 w = w"
| "removePairs_loop collider (Suc i) w = removePairs_loop collider i (removePairs_at collider i w)"

definition removePairs :: "'n world \<Rightarrow> cref \<Rightarrow> 'n world" where
  "removePairs w collider = removePairs_loop collider (length (mPairs w)) w"

definition clear_body_pairs :: "bref \<Rightarrow> 'n world \<Rightarrow> 'n world" where
  "clear_body_pairs body w =
     w\<lparr>bodyHeap := (bodyHeap w)(body := (bodyHeap w body)\<lparr>body_mPairs := []\<rparr>)\<rparr>"

text \<open>\<open>__addBody(body)\<close>, lines 189 to 203.\<close>

definition addBody :: "('n::zero) world \<Rightarrow> bref \<Rightarrow> 'n world" where
  "addBody w body =
     (let colliders = mCollidersCache w (gameObject (bodyHeap w body));
          w1 = clear_body_pairs body w;
          w2 = (case colliders of
                  [] \<Rightarrow> addPairs w1 (mCollider (bodyHeap w1 body)) body
                | c # cs \<Rightarrow> foldl (\<lambda>w' c'. addPairs w' c' body) w1 (c # cs))
      in w2\<lparr>mBodies := mBodies w2 @ [body]\<rparr>)"

text \<open>\<open>__removeBody(body)\<close>, lines 211 to 225.\<close>

definition removeBody :: "'n world \<Rightarrow> bref \<Rightarrow> 'n world" where
  "removeBody w body =
     (let colliders = mCollidersCache w (gameObject (bodyHeap w body));
          w1 = (case colliders of
                  [] \<Rightarrow> removePairs w (mCollider (bodyHeap w body))
                | c # cs \<Rightarrow> foldl removePairs w (c # cs));
          w2 = clear_body_pairs body w1
      in w2\<lparr>mBodies := splice1 (mBodies w2) (indexOf (mBodies w2) body)\<rparr>)"

subsection \<open>Colliders attached and detached\<close>

text \<open>
  \<open>__addCollider(child, collider)\<close>, lines 234 to 244. \<open>body && ...\<close> fails for the
  \<open>null\<close> that \<open>getComponent\<close> returns when the game object has no \<open>RigidBody\<close>.
\<close>

definition addCollider :: "('n::zero) world \<Rightarrow> gref \<Rightarrow> cref \<Rightarrow> 'n world" where
  "addCollider w child collider =
     (case rigidBodyOf w child of
        None \<Rightarrow> w
      | Some body \<Rightarrow>
          if indexOf (mBodies w) body \<noteq> - 1
          then (let w1 = addPairs w collider body
                in if length (mCollidersCache w1 child) = 1
                   then removePairs w1 (mCollider (bodyHeap w1 body))
                   else w1)
          else w)"

text \<open>
  \<open>onComponentRemoved\<close> calls \<open>__removeCollider\<close> with one argument, so the values that
  reach its parameters are not always a game object and a collider. They are modelled as
  JavaScript values, and what the source does with a value of the wrong class is written
  out: \<open>TypeError\<close> is the exception of calling a method that the value does not have.

  Modelled from the spec: the classes \<open>Collider\<close> and \<open>RigidBody\<close> are not among the
  sources. The attributes the spec gives them (kind tag, geometry, dirty flag, owning
  body; position, velocity, force, inverse mass, damping, static flag, scene node, pair
  list) include no method \<open>getComponent\<close> and no fields \<open>a\<close> or \<open>b\<close>: reading such a property
  yields \<open>undefined\<close>.
\<close>

datatype jsval = Undefined | GameObjectV gref | ColliderV cref | RigidBodyV bref

datatype error = TypeError

text \<open>
  \<open>__removePairs\<close> compares its argument with \<open>pair.a\<close> and \<open>pair.b\<close>, which hold
  colliders: a value that is not a collider equals neither, and the loop removes nothing.
\<close>

fun removePairs_val :: "'n world \<Rightarrow> jsval \<Rightarrow> 'n world" where
  "removePairs_val w (ColliderV c) = removePairs w c"
| "removePairs_val w v = w"

text \<open>\<open>__removeCollider(child, collider)\<close>, lines 253 to 263.\<close>

definition removeCollider :: "('n::zero) world \<Rightarrow> jsval \<Rightarrow> jsval \<Rightarrow> error + 'n world" where
  "removeCollider w child collider =
     (case child of
        GameObjectV g \<Rightarrow>
          (case rigidBodyOf w g of
             None \<Rightarrow> Inr w
           | Some body \<Rightarrow>
               if indexOf (mBodies w) body \<noteq> - 1
               then (let w1 = removePairs_val w collider
                     in if length (mCollidersCache w1 g) = 0
                        then Inr (addCollider w1 g (mCollider (bodyHeap w1 body)))
                        else Inr w1)
               else Inr w)
      | _ \<Rightarrow> Inl TypeError)"

text \<open>
  The scene graph's notifications, lines 164 to 181. \<open>onComponentAdded\<close> passes the game
  object and the component to \<open>__addCollider\<close>; \<open>onComponentRemoved\<close> passes the component
  alone to \<open>__removeCollider\<close>, whose second parameter is then \<open>undefined\<close>.
\<close>

datatype component = RigidBodyC bref | ColliderC cref | OtherC

definition onComponentAdded :: "('n::zero) world \<Rightarrow> gref \<Rightarrow> component \<Rightarrow> 'n world" where
  "onComponentAdded w child cmpt =
     (case cmpt of
        RigidBodyC body \<Rightarrow> addBody w body
      | ColliderC collider \<Rightarrow> addCollider w child collider
      | OtherC \<Rightarrow> w)"

definition onComponentRemoved :: "('n::zero) world \<Rightarrow> gref \<Rightarrow> component \<Rightarrow> error + 'n world" where
  "onComponentRemoved w child cmpt =
     (case cmpt of
        RigidBodyC body \<Rightarrow> Inr (removeBody w body)
      | ColliderC collider \<Rightarrow> removeCollider w (ColliderV collider) Undefined
      | OtherC \<Rightarrow> Inr w)"

text \<open>
  A thrown exception leaves the world as it was when it was thrown. Every \<open>TypeError\<close> of
  this model is raised by the first statement of the method, before any assignment.
\<close>

definition world_after :: "'n world \<Rightarrow> error + 'n world \<Rightarrow> 'n world" where
  "world_after w r = (case r of Inl e \<Rightarrow> w | Inr w' \<Rightarrow> w')"

subsection \<open>Queries\<close>

text \<open>
  The callback of a query is not modelled as a function: a query returns the arguments
  it passes to \<open>cb.call\<close>, \<open>None\<close> when it does not call it. Both queries call it at most
  once.
\<close>

type_synonym 'n callback_args = "'n \<times> 'n \<times> 'n"

definition collider_prop_a :: "cref \<Rightarrow> jsval" where
  "collider_prop_a c = Undefined"

definition collider_prop_b :: "cref \<Rightarrow> jsval" where
  "collider_prop_b c = Undefined"

text \<open>
  Modelled from the spec: \<open>Pair.__id\<close> applied to arbitrary values. The identifier is
  computed from the identities of two shapes; \<open>undefined\<close> has none to read.
\<close>

fun Pair_id_val :: "jsval \<Rightarrow> jsval \<Rightarrow> error + (cref \<times> cref)" where
  "Pair_id_val (ColliderV c) (ColliderV d) = Inr (Pair_id c d)"
| "Pair_id_val u v = Inl TypeError"

text \<open>\<open>collisionInfo(colliderA, colliderB, cb, ctx, ...args)\<close>, lines 81 to 88.\<close>

definition collisionInfo ::
  "('n::{one,uminus,times}) world \<Rightarrow> cref \<Rightarrow> cref \<Rightarrow> error + 'n callback_args option" where
  "collisionInfo w colliderA colliderB =
     (case Pair_id_val (collider_prop_a colliderA) (collider_prop_b colliderB) of
        Inl e \<Rightarrow> Inl e
      | Inr key \<Rightarrow>
          (case mPairsHash w key of
             None \<Rightarrow> Inr None
           | Some p \<Rightarrow>
               (let pair = pairHeap w p
                in if mInCollision pair
                   then (let sign = (if pair_a pair = colliderA then 1 else - 1)
                         in Inr (Some (vx (mNormal pair) * sign, vy (mNormal pair) * sign,
                                       mOverlap pair)))
                   else Inr None)))"

text \<open>
  \<open>inCollision(bodyA, bodyB, cb = null, ctx = null, ...args)\<close>, lines 112 to 133. The
  parameter \<open>cb\<close> of the model says whether a callback was passed. \<open>sign\<close> is one of the
  integer literals \<open>1\<close>, \<open>-1\<close> and \<open>0\<close>; \<open>num_of_sign\<close> is that literal as a factor.
\<close>

definition num_of_sign :: "int \<Rightarrow> 'n::{zero,one,uminus}" where
  "num_of_sign s = (if s = 1 then 1 else if s = - 1 then - 1 else 0)"

fun inCollision_scan ::
  "('n::{zero,one,uminus,times}) world \<Rightarrow> pref list \<Rightarrow> bref \<Rightarrow> bref \<Rightarrow> bool
     \<Rightarrow> bool \<times> 'n callback_args option" where
  "inCollision_scan w [] bA bB cb = (False, None)"
| "inCollision_scan w (p # ps) bA bB cb =
     (let pair = pairHeap w p
      in if \<not> mInCollision pair then inCollision_scan w ps bA bB cb
         else (let sign = (if bodyA pair = bA \<and> bodyB pair = bB then 1
                           else if bodyA pair = bB \<and> bodyB pair = bA then - 1 else 0 :: int)
               in if sign = 0 then inCollision_scan w ps bA bB cb
                  else (True,
                        if cb
                        then Some (vx (mNormal pair) * num_of_sign sign,
                                   vy (mNormal pair) * num_of_sign sign, mOverlap pair)
                        else None)))"

definition inCollision ::
  "('n::{zero,one,uminus,times}) world \<Rightarrow> bref \<Rightarrow> bref \<Rightarrow> bool
     \<Rightarrow> bool \<times> 'n callback_args option" where
  "inCollision w bA bB cb = inCollision_scan w (body_mPairs (bodyHeap w bA)) bA bB cb"

subsection \<open>The fixed update\<close>

text \<open>
  Modelled from the spec: \<open>RigidBody.update\<close>, the methods \<open>test\<close>, \<open>preSolve\<close>,
  \<open>solveVelocity\<close> and \<open>solvePosition\<close> of the three pair classes, and the constant
  \<open>Pair.unitsPerMeter\<close> are not among the sources. What each of them computes is a
  parameter of the model (a field of \<open>methods\<close>); what each of them writes is taken
  from the spec:
  \<^item> \<open>update\<close> refreshes the cached geometry of the body's shapes and marks a shape dirty
    when its geometry changed;
  \<^item> \<open>test\<close> sets the pair's flag, and on overlap its normal and its overlap depth;
  \<^item> \<open>preSolve\<close> computes the per-step constants of the pair;
  \<^item> \<open>solveVelocity\<close> applies an impulse to the velocities of the pair's two bodies and
    accumulates it into the pair's stored normal and tangent impulses;
  \<^item> \<open>solvePosition\<close> nudges the positions of the pair's two bodies apart.
  A static body (inverse mass 0) is immovable: the solver passes skip it, as the spec
  says of the position pass (``again skipping static bodies'') and of static bodies in
  general (``participates in collisions but is never itself displaced'').
\<close>

record 'n methods =
  refresh :: "'n world \<Rightarrow> bref \<Rightarrow> cref \<Rightarrow> 'n list \<times> bool"
  overlap_test :: "'n world \<Rightarrow> pref \<Rightarrow> ('n Vector \<times> 'n) option"
  step_constants :: "'n world \<Rightarrow> pref \<Rightarrow> 'n list"
  velocity_impulse :: "'n world \<Rightarrow> pref \<Rightarrow> ('n \<times> 'n) \<times> ('n Vector \<times> 'n Vector)"
  position_nudge :: "'n world \<Rightarrow> pref \<Rightarrow> 'n Vector \<times> 'n Vector"
  unitsPerMeter :: 'n

definition RigidBody_update :: "'n methods \<Rightarrow> 'n world \<Rightarrow> bref \<Rightarrow> 'n world" where
  "RigidBody_update ops w body =
     w\<lparr>colliderHeap :=
         (\<lambda>c. (colliderHeap w c)\<lparr>mChanged := snd (refresh ops w body c),
                                  geometry := fst (refresh ops w body c)\<rparr>)\<rparr>"

definition Pair_test :: "'n methods \<Rightarrow> 'n world \<Rightarrow> pref \<Rightarrow> 'n world" where
  "Pair_test ops w p =
     w\<lparr>pairHeap := (pairHeap w)
         (p := (case overlap_test ops w p of
                  None \<Rightarrow> (pairHeap w p)\<lparr>mInCollision := False\<rparr>
                | Some (n, d) \<Rightarrow>
                    (pairHeap w p)\<lparr>mInCollision := True, mNormal := n, mOverlap := d\<rparr>))\<rparr>"

definition Pair_preSolve :: "'n methods \<Rightarrow> 'n world \<Rightarrow> pref \<Rightarrow> 'n world" where
  "Pair_preSolve ops w p =
     w\<lparr>pairHeap := (pairHeap w)(p := (pairHeap w p)\<lparr>solverData := step_constants ops w p\<rparr>)\<rparr>"

definition set_velocity :: "bref \<Rightarrow> 'n Vector \<Rightarrow> ('n::zero) world \<Rightarrow> 'n world" where
  "set_velocity body v w =
     (if mInvMass (bodyHeap w body) = 0 then w
      else w\<lparr>bodyHeap := (bodyHeap w)(body := (bodyHeap w body)\<lparr>mVelocity := v\<rparr>)\<rparr>)"

definition set_position :: "bref \<Rightarrow> 'n Vector \<Rightarrow> ('n::zero) world \<Rightarrow> 'n world" where
  "set_position body v w =
     (if mInvMass (bodyHeap w body) = 0 then w
      else w\<lparr>bodyHeap := (bodyHeap w)(body := (bodyHeap w body)\<lparr>mPosition := v\<rparr>)\<rparr>)"

definition Pair_solveVelocity :: "('n::zero) methods \<Rightarrow> 'n world \<Rightarrow> pref \<Rightarrow> 'n world" where
  "Pair_solveVelocity ops w p =
     (let pr = pairHeap w p;
          ((jn, jt), (vA, vB)) = velocity_impulse ops w p;
          w1 = w\<lparr>pairHeap := (pairHeap w)
                  (p := pr\<lparr>mNormalImpulse := jn, mTangentImpulse := jt\<rparr>)\<rparr>
      in set_velocity (bodyB pr) vB (set_velocity (bodyA pr) vA w1))"

definition Pair_solvePosition :: "('n::zero) methods \<Rightarrow> 'n world \<Rightarrow> pref \<Rightarrow> 'n world" where
  "Pair_solvePosition ops w p =
     (let pr = pairHeap w p;
          (xA, xB) = position_nudge ops w p
      in set_position (bodyB pr) xB (set_position (bodyA pr) xA w))"

text \<open>
  \<open>__solve(dt)\<close>, lines 403 to 451, one definition per loop. The first loop is the
  velocity integration; \<open>integrateVelocity\<close> is its body for one \<open>RigidBody\<close>.
\<close>

definition integrateVelocity ::
  "'n Vector \<Rightarrow> 'n \<Rightarrow> ('n::{zero,one,plus,minus,times}) RigidBody \<Rightarrow> 'n RigidBody" where
  "integrateVelocity g dt body =
     (if mInvMass body = 0 then body
      else (let velocity = mVelocity body;
                invMass = mInvMass body;
                force = mForce body;
                damping = 1 - frictionAir body
            in body\<lparr>mVelocity :=
                 Vector ((vx velocity + (vx force * invMass + vx g) * dt) * damping)
                        ((vy velocity + (vy force * invMass + vy g) * dt) * damping)\<rparr>))"

definition integrate_velocity_of ::
  "'n \<Rightarrow> ('n::{zero,one,plus,minus,times}) world \<Rightarrow> bref \<Rightarrow> 'n world" where
  "integrate_velocity_of dt w body =
     w\<lparr>bodyHeap := (bodyHeap w)(body := integrateVelocity (gravity w) dt (bodyHeap w body))\<rparr>"

definition integrateVelocities ::
  "('n::{zero,one,plus,minus,times}) world \<Rightarrow> 'n \<Rightarrow> 'n world" where
  "integrateVelocities w dt = foldl (integrate_velocity_of dt) w (mBodies w)"

definition preSolveContacts :: "'n methods \<Rightarrow> 'n world \<Rightarrow> 'n world" where
  "preSolveContacts ops w = foldl (Pair_preSolve ops) w (mContacts w)"

definition solveVelocities :: "('n::zero) methods \<Rightarrow> 'n world \<Rightarrow> 'n world" where
  "solveVelocities ops w =
     ((\<lambda>w'. foldl (Pair_solveVelocity ops) w' (mContacts w')) ^^ iterations w) w"

definition integratePosition ::
  "'n \<Rightarrow> 'n \<Rightarrow> ('n::{zero,plus,times}) RigidBody \<Rightarrow> 'n RigidBody" where
  "integratePosition dt upm body =
     (let body1 = body\<lparr>mForce := Vector 0 0\<rparr>
      in if mInvMass body1 = 0 then body1
         else (let position = mPosition body1; velocity = mVelocity body1
               in body1\<lparr>mPosition :=
                    Vector (vx position + vx velocity * dt * upm)
                           (vy position + vy velocity * dt * upm)\<rparr>))"

definition integrate_position_of ::
  "('n::{zero,plus,times}) methods \<Rightarrow> 'n \<Rightarrow> 'n world \<Rightarrow> bref \<Rightarrow> 'n world" where
  "integrate_position_of ops dt w body =
     w\<lparr>bodyHeap := (bodyHeap w)
         (body := integratePosition dt (unitsPerMeter ops) (bodyHeap w body))\<rparr>"

definition integratePositions ::
  "('n::{zero,plus,times}) methods \<Rightarrow> 'n world \<Rightarrow> 'n \<Rightarrow> 'n world" where
  "integratePositions ops w dt = foldl (integrate_position_of ops dt) w (mBodies w)"

definition solvePositions :: "('n::zero) methods \<Rightarrow> 'n world \<Rightarrow> 'n world" where
  "solvePositions ops w =
     ((\<lambda>w'. foldl (Pair_solvePosition ops) w' (mContacts w')) ^^ iterations w) w"

definition solve ::
  "('n::{zero,one,plus,minus,times}) methods \<Rightarrow> 'n world \<Rightarrow> 'n \<Rightarrow> 'n world" where
  "solve ops w dt =
     solvePositions ops
       (integratePositions ops
          (solveVelocities ops (preSolveContacts ops (integrateVelocities w dt))) dt)"

text \<open>
  \<open>onFixedUpdate(dt)\<close>, lines 359 to 395, again one definition per loop: the bodies'
  \<open>update\<close>, the optimistic marking of every pair, the narrow test, and the partition
  into contacts and separated pairs. \<open>narrowPhase\<close> is the world after the narrow test.
\<close>

definition updateBodies :: "'n methods \<Rightarrow> 'n world \<Rightarrow> 'n world" where
  "updateBodies ops w = foldl (RigidBody_update ops) w (mBodies w)"

definition mark_pair :: "'n world \<Rightarrow> pref \<Rightarrow> 'n world" where
  "mark_pair w p = w\<lparr>pairHeap := (pairHeap w)(p := (pairHeap w p)\<lparr>mInCollision := True\<rparr>)\<rparr>"

definition markPairs :: "'n world \<Rightarrow> 'n world" where
  "markPairs w = foldl mark_pair w (mPairs w)"

definition test_pair :: "'n methods \<Rightarrow> 'n world \<Rightarrow> pref \<Rightarrow> 'n world" where
  "test_pair ops w p = (if mInCollision (pairHeap w p) then Pair_test ops w p else w)"

definition testPairs :: "'n methods \<Rightarrow> 'n world \<Rightarrow> 'n world" where
  "testPairs ops w = foldl (test_pair ops) w (mPairs w)"

definition collect_pair :: "('n::zero) world \<Rightarrow> pref \<Rightarrow> 'n world" where
  "collect_pair w p =
     (if mInCollision (pairHeap w p) then w\<lparr>mContacts := mContacts w @ [p]\<rparr>
      else w\<lparr>pairHeap := (pairHeap w)
               (p := (pairHeap w p)\<lparr>mNormalImpulse := 0, mTangentImpulse := 0\<rparr>)\<rparr>)"

definition collectContacts :: "('n::zero) world \<Rightarrow> 'n world" where
  "collectContacts w = foldl collect_pair w (mPairs w)"

definition narrowPhase :: "'n methods \<Rightarrow> 'n world \<Rightarrow> 'n world" where
  "narrowPhase ops w = testPairs ops (markPairs (updateBodies ops (w\<lparr>mContacts := []\<rparr>)))"

definition onFixedUpdate ::
  "('n::{zero,one,plus,minus,times}) methods \<Rightarrow> 'n world \<Rightarrow> 'n \<Rightarrow> 'n world" where
  "onFixedUpdate ops w dt = solve ops (collectContacts (narrowPhase ops w)) dt"


text \<open>Several fixed updates in a row, one per element of the list of time steps.\<close>

definition fixedUpdates ::
  "('n::{zero,one,plus,minus,times}) methods \<Rightarrow> 'n world \<Rightarrow> 'n list \<Rightarrow> 'n world" where
  "fixedUpdates ops w dts = foldl (onFixedUpdate ops) w dts"

subsection \<open>Predicates used in the proofs\<close>

text \<open>A body that is static, with its position and its velocity.\<close>

definition static_at :: "('n::zero) world \<Rightarrow> bref \<Rightarrow> 'n Vector \<Rightarrow> 'n Vector \<Rightarrow> bool" where
  "static_at w b x v =
     (mInvMass (bodyHeap w b) = 0 \<and> mPosition (bodyHeap w b) = x \<and> mVelocity (bodyHeap w b) = v)"

text \<open>The contact list and the state of one pair.\<close>

definition pair_kept :: "'n world \<Rightarrow> pref \<Rightarrow> pref list \<Rightarrow> 'n Pair \<Rightarrow> bool" where
  "pair_kept w p cs pr = (mContacts w = cs \<and> pairHeap w p = pr)"

text \<open>A pair that is not in collision and carries no accumulated impulse.\<close>

definition separated :: "('n::zero) world \<Rightarrow> pref \<Rightarrow> bool" where
  "separated w p =
     (\<not> mInCollision (pairHeap w p) \<and> mNormalImpulse (pairHeap w p) = 0 \<and>
      mTangentImpulse (pairHeap w p) = 0)"

definition lists_are :: "'n world \<Rightarrow> pref list \<Rightarrow> pref list \<Rightarrow> bool" where
  "lists_are w ps cs = (mPairs w = ps \<and> mContacts w = cs)"

text \<open>
  What \<open>inCollision\<close> looks for in the pair list of \<open>bodyA\<close>: a pair that is in collision
  and connects the two bodies in either order; and what it reports for such a pair: the
  normal, negated when the pair stores the bodies in the other order, and the overlap.
\<close>

definition inCollision_match :: "'n world \<Rightarrow> bref \<Rightarrow> bref \<Rightarrow> pref \<Rightarrow> bool" where
  "inCollision_match w bA bB p =
     (mInCollision (pairHeap w p) \<and>
      (bodyA (pairHeap w p) = bA \<and> bodyB (pairHeap w p) = bB \<or>
       bodyA (pairHeap w p) = bB \<and> bodyB (pairHeap w p) = bA))"

definition inCollision_report ::
  "('n::{one,uminus,times}) world \<Rightarrow> bref \<Rightarrow> bref \<Rightarrow> pref \<Rightarrow> 'n callback_args" where
  "inCollision_report w bA bB p =
     (let pr = pairHeap w p;
          s = (if bodyA pr = bA \<and> bodyB pr = bB then 1 else - 1)
      in (vx (mNormal pr) * s, vy (mNormal pr) * s, mOverlap pr))"




subsection \<open>A small scene\<close>

text \<open>
  The scene of the examples. Body \<open>b\<close> sits on game object \<open>b\<close> and has the default
  collider \<open>100 + b\<close>; body 5 is static, the others are not. Collider 103 is a box, the
  others are circles. Game object 4 carries the explicit collider 10, game object 9 has
  no body. Nothing is in the world yet.
\<close>

definition demo_body :: "bref \<Rightarrow> real RigidBody" where
  "demo_body b =
     \<lparr>mPosition = Vector (15 * real b) 0, mVelocity = Vector 1 2, mForce = Vector 3 4,
      mInvMass = (if b = 5 then 0 else 2), frictionAir = 1 / 10, gameObject = b,
      mCollider = 100 + b, body_mPairs = []\<rparr>"

definition demo_world :: "real world" where
  "demo_world =
     \<lparr>mBodies = [], mPairs = [], mContacts = [], mPairsHash = (\<lambda>k. None),
      gravity = Vector 0 1000, iterations = 1, bodyHeap = demo_body,
      colliderHeap = (\<lambda>c. \<lparr>isBox = (c = 103), mChanged = False, geometry = []\<rparr>),
      pairHeap = (\<lambda>p. Pair_new CircleToCirclePair),
      mCollidersCache = (\<lambda>g. if g = 4 then [10] else []),
      rigidBodyOf = (\<lambda>g. if g = 9 then None else Some g),
      pools = (\<lambda>k. []), nextPair = 0\<rparr>"

text \<open>
  Pair methods for the examples: every pair overlaps by 5 along the normal \<open>(1, 0)\<close>; the
  velocity pass accumulates the impulses 3 and 4 and proposes the velocities \<open>(7, 0)\<close> and
  \<open>(-7, 0)\<close>; the position pass proposes the positions \<open>(100, 0)\<close> and \<open>(-100, 0)\<close>. With
  \<open>separating_ops\<close> no pair overlaps.
\<close>

definition demo_ops :: "real methods" where
  "demo_ops =
     \<lparr>refresh = (\<lambda>w b c. (geometry (colliderHeap w c), False)),
      overlap_test = (\<lambda>w p. Some (Vector 1 0, 5)),
      step_constants = (\<lambda>w p. []),
      velocity_impulse = (\<lambda>w p. ((3, 4), (Vector 7 0, Vector (- 7) 0))),
      position_nudge = (\<lambda>w p. (Vector 100 0, Vector (- 100) 0)),
      unitsPerMeter = 1\<rparr>"

definition separating_ops :: "real methods" where
  "separating_ops = demo_ops\<lparr>overlap_test := (\<lambda>w p. None)\<rparr>"

text \<open>
  The scene graph changes the collider cache of a game object before it notifies the
  world: \<open>__addCollider\<close> and \<open>__removeCollider\<close> test the length of the cache after the
  change.
\<close>

definition setColliders :: "gref \<Rightarrow> cref list \<Rightarrow> 'n world \<Rightarrow> 'n world" where
  "setColliders g cs w = w\<lparr>mCollidersCache := (mCollidersCache w)(g := cs)\<rparr>"

text \<open>Bodies 5 and 2 in the world; the same after a fixed update in which they collide.\<close>

definition two_bodies :: "real world" where
  "two_bodies = addBody (addBody demo_world 5) 2"

definition colliding :: "real world" where
  "colliding = onFixedUpdate demo_ops two_bodies (1 / 50)"

text \<open>Bodies 5 and 4 in the world, then collider 10 detached from game object 4.\<close>

definition explicit_shape :: "real world" where
  "explicit_shape = addBody (addBody demo_world 5) 4"

definition shape_detached :: "real world" where
  "shape_detached = setColliders 4 [] explicit_shape"

text \<open>
  Then the scene graph notifies the world of the detached collider, attaches collider 10
  to game object 4 again and notifies the world of that.
\<close>

definition shape_reattached :: "real world" where
  "shape_reattached =
     onComponentAdded
       (setColliders 4 [10]
          (world_after shape_detached (onComponentRemoved shape_detached 4 (ColliderC 10))))
       4 (ColliderC 10)"

text \<open>Bodies 5 and 2 in the world and body 2 added once more.\<close>

definition twice_listed :: "real world" where
  "twice_listed = addBody two_bodies 2"


subsection \<open>Well-formed use of the registry\<close>

text \<open>
  The shapes a body brings into the world: the colliders of its game object, or its own
  default collider when the game object has none (the case distinction of \<open>__addBody\<close>,
  \<open>__removeBody\<close> and \<open>__addPairs\<close>).
\<close>

definition shapes :: "'n world \<Rightarrow> bref \<Rightarrow> cref list" where
  "shapes w b =
     (case mCollidersCache w (gameObject (bodyHeap w b)) of
        [] \<Rightarrow> [mCollider (bodyHeap w b)]
      | c # cs \<Rightarrow> c # cs)"

text \<open>
  The scene as far as the registry depends on it: which bodies are active, which
  colliders each game object carries, which body it carries, and the game object, the
  default collider and the class of every body and collider.
\<close>

definition scene_of ::
  "'n world \<Rightarrow> bref list \<times> (gref \<Rightarrow> cref list) \<times> (gref \<Rightarrow> bref option) \<times>
     (bref \<Rightarrow> gref) \<times> (bref \<Rightarrow> cref) \<times> (cref \<Rightarrow> bool)" where
  "scene_of w =
     (mBodies w, mCollidersCache w, rigidBodyOf w, (\<lambda>b. gameObject (bodyHeap w b)),
      (\<lambda>b. mCollider (bodyHeap w b)), (\<lambda>c. isBox (colliderHeap w c)))"

text \<open>
  A scene is consistent when a game object that carries a body is the game object of
  that body, default colliders belong to one body each and are never attached to a game
  object, and an attached collider is attached once, to one game object.
\<close>

definition scene_ok :: "'n world \<Rightarrow> bool" where
  "scene_ok w =
     ((\<forall>g b. rigidBodyOf w g = Some b \<longrightarrow> gameObject (bodyHeap w b) = g) \<and>
      (\<forall>b b'. mCollider (bodyHeap w b) = mCollider (bodyHeap w b') \<longrightarrow> b = b') \<and>
      (\<forall>b g. mCollider (bodyHeap w b) \<notin> set (mCollidersCache w g)) \<and>
      (\<forall>g. distinct (mCollidersCache w g)) \<and>
      (\<forall>g g'. g \<noteq> g' \<longrightarrow> set (mCollidersCache w g) \<inter> set (mCollidersCache w g') = {}))"

text \<open>A body is attached when it is the body that its game object carries.\<close>

definition attached :: "'n world \<Rightarrow> bref \<Rightarrow> bool" where
  "attached w b = (rigidBodyOf w (gameObject (bodyHeap w b)) = Some b)"

text \<open>
  What a maintained pair refers to: its two shapes and its two bodies. \<open>entries\<close> lists
  this for the pairs of \<open>mPairs\<close>, in order; \<open>entry_key\<close> is the pair id of an entry.
\<close>

type_synonym entry = "cref \<times> cref \<times> bref \<times> bref"

definition entry :: "'n world \<Rightarrow> pref \<Rightarrow> entry" where
  "entry w p =
     (pair_a (pairHeap w p), pair_b (pairHeap w p), bodyA (pairHeap w p), bodyB (pairHeap w p))"

definition entries :: "'n world \<Rightarrow> entry list" where
  "entries w = map (entry w) (mPairs w)"

fun entry_key :: "entry \<Rightarrow> cref \<times> cref" where
  "entry_key (c, d, bA, bB) = Pair_id c d"

text \<open>
  An entry is sound when its bodies are two different active bodies and its shapes are
  shapes of these bodies, the first of the first and the second of the second.
\<close>

fun entry_ok :: "'n world \<Rightarrow> entry \<Rightarrow> bool" where
  "entry_ok w (c, d, bA, bB) =
     (bA \<noteq> bB \<and> bA \<in> set (mBodies w) \<and> bB \<in> set (mBodies w) \<and>
      c \<in> set (shapes w bA) \<and> d \<in> set (shapes w bB))"

text \<open>The entry that \<open>__addPair(a, b, bodyA, bodyB)\<close> stores: the box goes first.\<close>

definition orient :: "'n world \<Rightarrow> cref \<Rightarrow> cref \<Rightarrow> bref \<Rightarrow> bref \<Rightarrow> entry" where
  "orient w c d bA bB =
     (if isBox (colliderHeap w d) \<and> \<not> isBox (colliderHeap w c) then (d, c, bB, bA)
      else (c, d, bA, bB))"

text \<open>
  The pair objects that exist: those in \<open>mPairs\<close> and those in the three pools. The pools
  are sound when no object is listed twice and every object was allocated.
\<close>

definition all_pairs :: "'n world \<Rightarrow> pref list" where
  "all_pairs w =
     mPairs w @ pools w BoxToBoxPair @ pools w CircleToCirclePair @ pools w BoxToCirclePair"

definition pool_ok :: "'n world \<Rightarrow> bool" where
  "pool_ok w = (distinct (all_pairs w) \<and> (\<forall>p \<in> set (all_pairs w). p < nextPair w))"

text \<open>
  The shapes of the active bodies other than \<open>b\<close>, and the entries that
  \<open>__addPairs(c, b)\<close> adds: one for \<open>c\<close> with each of these shapes.
\<close>

definition other_bodies :: "'n world \<Rightarrow> bref \<Rightarrow> bref list" where
  "other_bodies w b = filter (\<lambda>b'. b' \<noteq> b) (mBodies w)"

definition other_shapes :: "'n world \<Rightarrow> bref \<Rightarrow> cref list" where
  "other_shapes w b = concat (map (shapes w) (other_bodies w b))"

definition new_entries :: "'n world \<Rightarrow> cref \<Rightarrow> bref \<Rightarrow> entry list" where
  "new_entries w c b =
     concat (map (\<lambda>b'. map (\<lambda>d. orient w c d b b') (shapes w b')) (other_bodies w b))"

text \<open>An entry touches a shape when the shape is one of its two.\<close>

fun touches :: "cref \<Rightarrow> entry \<Rightarrow> bool" where
  "touches x (c, d, bA, bB) = (c = x \<or> d = x)"

text \<open>The invariant of the registry.\<close>

definition registry_ok :: "'n world \<Rightarrow> bool" where
  "registry_ok w =
     (scene_ok w \<and> pool_ok w \<and> distinct (mBodies w) \<and> list_all (attached w) (mBodies w) \<and>
      distinct (map entry_key (entries w)) \<and> list_all (entry_ok w) (entries w))"


section \<open>Arrays\<close>

lemma indexOf_ge: "- 1 \<le> indexOf xs x"
  by (induction xs) (auto simp: Let_def)

lemma indexOf_absent: "indexOf xs x = - 1 \<longleftrightarrow> x \<notin> set xs"
proof (induction xs)
  case Nil
  then show ?case by simp
next
  case (Cons y ys)
  have "- 1 \<le> indexOf ys x" by (rule indexOf_ge)
  with Cons show ?case by (auto simp: Let_def)
qed

section \<open>The example worlds\<close>

text \<open>
  The example worlds are computed once, by unfolding the methods, and used in this form
  below.
\<close>

lemmas registry_defs = addBody_def removeBody_def addPairs_def addPairs_body_def addPair_def
  pair_class_def   pool_get_def pool_release_def Pair_new_def Pair_set_def push_body_pair_def clear_body_pairs_def
  removePairs_def removePairs_at_def splice_body_pair_def splice1_def Pair_id_def
  addCollider_def removeCollider_def setColliders_def onComponentAdded_def

lemmas step_defs = onFixedUpdate_def narrowPhase_def updateBodies_def markPairs_def testPairs_def
  collectContacts_def solve_def integrateVelocities_def preSolveContacts_def solveVelocities_def
  integratePositions_def solvePositions_def RigidBody_update_def mark_pair_def test_pair_def
  Pair_test_def collect_pair_def integrate_velocity_of_def integrateVelocity_def Pair_preSolve_def
  Pair_solveVelocity_def set_velocity_def integrate_position_of_def integratePosition_def
  Pair_solvePosition_def set_position_def

lemma first_body_state:
  "addBody demo_world 5 =
   \<lparr>mBodies = [5], mPairs = [], mContacts = [], mPairsHash = \<lambda>k. None,
      gravity = Vector 0 1000, iterations = 1,
      bodyHeap = demo_body(5 := (demo_body 5)\<lparr>body_mPairs := []\<rparr>),
      colliderHeap =
        (\<lambda>c. \<lparr>isBox = (c = 103), mChanged = False, geometry = []\<rparr>)
        (105 := \<lparr>isBox = False, mChanged = True, geometry = []\<rparr>),
      pairHeap = \<lambda>p. Pair_new CircleToCirclePair,
      mCollidersCache = \<lambda>g. if g = 4 then [10] else [],
      rigidBodyOf = \<lambda>g. if g = 9 then None else Some g, pools = \<lambda>k. [],
      nextPair = 0\<rparr>"
  by (simp add: registry_defs demo_world_def demo_body_def Let_def)

lemma two_bodies_state:
  "two_bodies =
   \<lparr>mBodies = [5, 2], mPairs = [0], mContacts = [],
      mPairsHash = [(102, 105) \<mapsto> 0], gravity = Vector 0 1000, iterations = 1,
      bodyHeap = demo_body
        (2 := (demo_body 2)\<lparr>body_mPairs := [0]\<rparr>, 5 := (demo_body 5)\<lparr>body_mPairs := [0]\<rparr>),
      colliderHeap =
        (\<lambda>c. \<lparr>isBox = (c = 103), mChanged = False, geometry = []\<rparr>)
        (105 := \<lparr>isBox = False, mChanged = True, geometry = []\<rparr>,
         102 := \<lparr>isBox = False, mChanged = True, geometry = []\<rparr>),
      pairHeap = (\<lambda>p. Pair_new CircleToCirclePair)
        (0 := \<lparr>kind = CircleToCirclePair, pair_a = 102, pair_b = 105, bodyA = 2, bodyB = 5,
                mInCollision = False, mNormal = Vector 0 0, mOverlap = 0,
                mNormalImpulse = 0, mTangentImpulse = 0, solverData = []\<rparr>),
      mCollidersCache = \<lambda>g. if g = 4 then [10] else [],
      rigidBodyOf = \<lambda>g. if g = 9 then None else Some g, pools = \<lambda>k. [],
      nextPair = 1\<rparr>"
  unfolding two_bodies_def first_body_state
  by (simp add: registry_defs demo_body_def Let_def)

lemma colliding_state:
  "colliding =
   \<lparr>mBodies = [5, 2], mPairs = [0], mContacts = [0],
      mPairsHash = [(102, 105) \<mapsto> 0], gravity = Vector 0 1000, iterations = 1,
      bodyHeap = demo_body
        (5 := (demo_body 5)\<lparr>mForce := Vector 0 0, body_mPairs := [0]\<rparr>,
         2 := (demo_body 2)\<lparr>mPosition := Vector 100 0, mVelocity := Vector 7 0,
                             mForce := Vector 0 0, body_mPairs := [0]\<rparr>),
      colliderHeap =
        (\<lambda>c. (if c = 102 then \<lparr>isBox = False, mChanged = True, geometry = []\<rparr>
              else ((\<lambda>c. \<lparr>isBox = (c = 103), mChanged = False, geometry = []\<rparr>)
                    (105 := \<lparr>isBox = False, mChanged = True, geometry = []\<rparr>)) c)
             \<lparr>mChanged := False\<rparr>),
      pairHeap = (\<lambda>p. Pair_new CircleToCirclePair)
        (0 := \<lparr>kind = CircleToCirclePair, pair_a = 102, pair_b = 105, bodyA = 2, bodyB = 5,
                mInCollision = True, mNormal = Vector 1 0, mOverlap = 5,
                mNormalImpulse = 3, mTangentImpulse = 4, solverData = []\<rparr>),
      mCollidersCache = \<lambda>g. if g = 4 then [10] else [],
      rigidBodyOf = \<lambda>g. if g = 9 then None else Some g, pools = \<lambda>k. [],
      nextPair = 1\<rparr>"
  unfolding colliding_def two_bodies_state
  by (simp add: step_defs demo_ops_def demo_body_def Pair_new_def Let_def)

lemma explicit_shape_state:
  "explicit_shape =
   \<lparr>mBodies = [5, 4], mPairs = [0], mContacts = [],
      mPairsHash = [(10, 105) \<mapsto> 0], gravity = Vector 0 1000, iterations = 1,
      bodyHeap = demo_body
        (4 := (demo_body 4)\<lparr>body_mPairs := [0]\<rparr>, 5 := (demo_body 5)\<lparr>body_mPairs := [0]\<rparr>),
      colliderHeap =
        (\<lambda>c. \<lparr>isBox = (c = 103), mChanged = False, geometry = []\<rparr>)
        (105 := \<lparr>isBox = False, mChanged = True, geometry = []\<rparr>,
         10 := \<lparr>isBox = False, mChanged = True, geometry = []\<rparr>),
      pairHeap = (\<lambda>p. Pair_new CircleToCirclePair)
        (0 := \<lparr>kind = CircleToCirclePair, pair_a = 10, pair_b = 105, bodyA = 4, bodyB = 5,
                mInCollision = False, mNormal = Vector 0 0, mOverlap = 0,
                mNormalImpulse = 0, mTangentImpulse = 0, solverData = []\<rparr>),
      mCollidersCache = \<lambda>g. if g = 4 then [10] else [],
      rigidBodyOf = \<lambda>g. if g = 9 then None else Some g, pools = \<lambda>k. [],
      nextPair = 1\<rparr>"
  unfolding explicit_shape_def first_body_state
  by (simp add: registry_defs demo_body_def Let_def)

lemma untracked_removed_state:
  "removeBody two_bodies 3 =
   \<lparr>mBodies = [5], mPairs = [0], mContacts = [],
      mPairsHash = [(102, 105) \<mapsto> 0], gravity = Vector 0 1000, iterations = 1,
      bodyHeap = demo_body
        (2 := (demo_body 2)\<lparr>body_mPairs := [0]\<rparr>, 5 := (demo_body 5)\<lparr>body_mPairs := [0]\<rparr>,
         3 := (demo_body 3)\<lparr>body_mPairs := []\<rparr>),
      colliderHeap =
        (\<lambda>c. \<lparr>isBox = (c = 103), mChanged = False, geometry = []\<rparr>)
        (105 := \<lparr>isBox = False, mChanged = True, geometry = []\<rparr>,
         102 := \<lparr>isBox = False, mChanged = True, geometry = []\<rparr>),
      pairHeap = (\<lambda>p. Pair_new CircleToCirclePair)
        (0 := \<lparr>kind = CircleToCirclePair, pair_a = 102, pair_b = 105, bodyA = 2, bodyB = 5,
                mInCollision = False, mNormal = Vector 0 0, mOverlap = 0,
                mNormalImpulse = 0, mTangentImpulse = 0, solverData = []\<rparr>),
      mCollidersCache = \<lambda>g. if g = 4 then [10] else [],
      rigidBodyOf = \<lambda>g. if g = 9 then None else Some g, pools = \<lambda>k. [],
      nextPair = 1\<rparr>"
  unfolding two_bodies_state
  by (simp add: registry_defs demo_body_def Let_def)

section \<open>The velocity integration\<close>

lemma integrate_velocity_of_other:
  "b \<noteq> c \<Longrightarrow> bodyHeap (integrate_velocity_of dt w c) b = bodyHeap w b"
  by (simp add: integrate_velocity_of_def)


lemma integrate_velocity_notin:
  "b \<notin> set bs \<Longrightarrow> bodyHeap (foldl (integrate_velocity_of dt) w bs) b = bodyHeap w b"
  by (induction bs arbitrary: w) (auto simp: integrate_velocity_of_other)






















section \<open>Static bodies\<close>

lemma static_update: "static_at w b x v \<Longrightarrow> static_at (RigidBody_update ops w c) b x v"
  by (simp add: static_at_def RigidBody_update_def)

lemma static_mark: "static_at w b x v \<Longrightarrow> static_at (mark_pair w p) b x v"
  by (simp add: static_at_def mark_pair_def)

lemma static_test: "static_at w b x v \<Longrightarrow> static_at (test_pair ops w p) b x v"
  by (simp add: static_at_def test_pair_def Pair_test_def)

lemma static_collect: "static_at w b x v \<Longrightarrow> static_at (collect_pair w p) b x v"
  by (simp add: static_at_def collect_pair_def)

lemma static_integrate_velocity:
  "static_at w b x v \<Longrightarrow> static_at (integrate_velocity_of dt w c) b x v"
  by (auto simp: static_at_def integrate_velocity_of_def integrateVelocity_def)

lemma static_preSolve: "static_at w b x v \<Longrightarrow> static_at (Pair_preSolve ops w p) b x v"
  by (simp add: static_at_def Pair_preSolve_def)

lemma static_set_velocity: "static_at w b x v \<Longrightarrow> static_at (set_velocity c u w) b x v"
  by (auto simp: static_at_def set_velocity_def)

lemma static_set_position: "static_at w b x v \<Longrightarrow> static_at (set_position c u w) b x v"
  by (auto simp: static_at_def set_position_def)

lemma static_solveVelocity:
  assumes "static_at w b x v"
  shows "static_at (Pair_solveVelocity ops w p) b x v"
proof -
  obtain jn jt vA vB where e: "velocity_impulse ops w p = ((jn, jt), (vA, vB))"
    by (metis prod.exhaust)
  have "static_at (w\<lparr>pairHeap := (pairHeap w)
          (p := (pairHeap w p)\<lparr>mNormalImpulse := jn, mTangentImpulse := jt\<rparr>)\<rparr>) b x v"
    using assms by (simp add: static_at_def)
  then show ?thesis
    by (simp add: Pair_solveVelocity_def e Let_def static_set_velocity)
qed

lemma static_integrate_position:
  "static_at w b x v \<Longrightarrow> static_at (integrate_position_of ops dt w c) b x v"
  by (auto simp: static_at_def integrate_position_of_def integratePosition_def Let_def)

lemma static_solvePosition:
  assumes "static_at w b x v"
  shows "static_at (Pair_solvePosition ops w p) b x v"
proof -
  obtain xA xB where e: "position_nudge ops w p = (xA, xB)"
    by (metis prod.exhaust)
  show ?thesis using assms
    by (simp add: Pair_solvePosition_def e Let_def static_set_position)
qed

lemma static_foldl:
  assumes "static_at w b x v" and "\<And>s y. static_at s b x v \<Longrightarrow> static_at (f s y) b x v"
  shows "static_at (foldl f w ys) b x v"
  using assms(1) by (induction ys arbitrary: w) (auto intro: assms(2))

lemma static_funpow:
  assumes "static_at w b x v" and "\<And>s. static_at s b x v \<Longrightarrow> static_at (f s) b x v"
  shows "static_at ((f ^^ n) w) b x v"
  using assms(1) by (induction n) (auto intro: assms(2))

lemma static_narrowPhase:
  assumes "static_at w b x v"
  shows "static_at (narrowPhase ops w) b x v"
proof -
  from assms have "static_at (w\<lparr>mContacts := []\<rparr>) b x v"
    by (simp add: static_at_def)
  then have "static_at (updateBodies ops (w\<lparr>mContacts := []\<rparr>)) b x v"
    unfolding updateBodies_def by (rule static_foldl) (rule static_update)
  then have "static_at (markPairs (updateBodies ops (w\<lparr>mContacts := []\<rparr>))) b x v"
    unfolding markPairs_def by (rule static_foldl) (rule static_mark)
  then show ?thesis
    unfolding narrowPhase_def testPairs_def by (rule static_foldl) (rule static_test)
qed

lemma static_collectContacts:
  assumes "static_at w b x v"
  shows "static_at (collectContacts w) b x v"
  unfolding collectContacts_def using assms by (rule static_foldl) (rule static_collect)

lemma static_solveVelocities:
  assumes "static_at w b x v"
  shows "static_at (solveVelocities ops w) b x v"
  unfolding solveVelocities_def using assms
  by (rule static_funpow) (rule static_foldl, assumption, rule static_solveVelocity)

lemma static_solvePositions:
  assumes "static_at w b x v"
  shows "static_at (solvePositions ops w) b x v"
  unfolding solvePositions_def using assms
  by (rule static_funpow) (rule static_foldl, assumption, rule static_solvePosition)

lemma static_solve:
  assumes "static_at w b x v"
  shows "static_at (solve ops w dt) b x v"
proof -
  from assms have "static_at (integrateVelocities w dt) b x v"
    unfolding integrateVelocities_def by (rule static_foldl) (rule static_integrate_velocity)
  then have "static_at (preSolveContacts ops (integrateVelocities w dt)) b x v"
    unfolding preSolveContacts_def by (rule static_foldl) (rule static_preSolve)
  then have "static_at (solveVelocities ops (preSolveContacts ops (integrateVelocities w dt))) b x v"
    by (rule static_solveVelocities)
  then have "static_at (integratePositions ops
      (solveVelocities ops (preSolveContacts ops (integrateVelocities w dt))) dt) b x v"
    unfolding integratePositions_def by (rule static_foldl) (rule static_integrate_position)
  then show ?thesis
    unfolding solve_def by (rule static_solvePositions)
qed

lemma static_onFixedUpdate:
  assumes "static_at w b x v"
  shows "static_at (onFixedUpdate ops w dt) b x v"
  unfolding onFixedUpdate_def
  by (intro static_solve static_collectContacts static_narrowPhase assms)

lemma static_fixedUpdates:
  assumes "static_at w b x v"
  shows "static_at (fixedUpdates ops w dts) b x v"
  unfolding fixedUpdates_def using assms by (rule static_foldl) (rule static_onFixedUpdate)

text \<open>
  C2. After any number of fixed updates, whatever their time steps and whatever the pair
  methods compute for the contacts, a body whose inverse mass is 0 has the position and
  the velocity it had before; the two integration loops of \<open>__solve\<close> skip such a body
  (the second one clears its force and nothing else).
\<close>

theorem static_body_unmoved:
  "mInvMass (bodyHeap w body) = 0 \<Longrightarrow>
   mPosition (bodyHeap (fixedUpdates ops w dts) body) = mPosition (bodyHeap w body) \<and>
   mVelocity (bodyHeap (fixedUpdates ops w dts) body) = mVelocity (bodyHeap w body) \<and>
   integrateVelocity g dt (bodyHeap w body) = bodyHeap w body \<and>
   integratePosition dt upm (bodyHeap w body) = (bodyHeap w body)\<lparr>mForce := Vector 0 0\<rparr>"
proof -
  assume z: "mInvMass (bodyHeap w body) = 0"
  then have "static_at w body (mPosition (bodyHeap w body)) (mVelocity (bodyHeap w body))"
    by (simp add: static_at_def)
  then have "static_at (fixedUpdates ops w dts) body
               (mPosition (bodyHeap w body)) (mVelocity (bodyHeap w body))"
    by (rule static_fixedUpdates)
  then show ?thesis using z
    by (simp add: static_at_def integrateVelocity_def integratePosition_def Let_def)
qed

text \<open>
  In the example the static body 5 is in contact with body 2 during two fixed updates
  and stays where it is, while body 2 is moved by the first of them.
\<close>

theorem static_body_unmoved_witness:
  "mInvMass (bodyHeap two_bodies 5) = 0 \<and>
   mPosition (bodyHeap (fixedUpdates demo_ops two_bodies [1 / 50, 1 / 50]) 5) = Vector 75 0 \<and>
   mVelocity (bodyHeap (fixedUpdates demo_ops two_bodies [1 / 50, 1 / 50]) 5) = Vector 1 2"
proof -
  have z: "mInvMass (bodyHeap two_bodies 5) = 0"
    by (simp add: two_bodies_state demo_body_def)
  have i: "mPosition (bodyHeap two_bodies 5) = Vector 75 0"
    "mVelocity (bodyHeap two_bodies 5) = Vector 1 2"
    by (simp_all add: two_bodies_state demo_body_def)
  from static_body_unmoved[OF z, of demo_ops "[1 / 50, 1 / 50]"] show ?thesis
    using z by (simp add: i)
qed

lemma dynamic_body_moves:
  "mInvMass (bodyHeap two_bodies 2) = 2 \<and>
   mPosition (bodyHeap two_bodies 2) = Vector 30 0 \<and>
   mPosition (bodyHeap (fixedUpdates demo_ops two_bodies [1 / 50]) 2) = Vector 100 0 \<and>
   mVelocity (bodyHeap (fixedUpdates demo_ops two_bodies [1 / 50]) 2) = Vector 7 0"
proof -
  have "fixedUpdates demo_ops two_bodies [1 / 50] = colliding"
    by (simp add: fixedUpdates_def colliding_def)
  then show ?thesis
    by (simp add: colliding_state) (simp add: two_bodies_state demo_body_def)
qed

section \<open>Separated pairs\<close>

lemma kept_foldl:
  assumes "pair_kept w p cs pr"
    and "\<And>s y. y \<in> set ys \<Longrightarrow> pair_kept s p cs pr \<Longrightarrow> pair_kept (f s y) p cs pr"
  shows "pair_kept (foldl f w ys) p cs pr"
  using assms by (induction ys arbitrary: w) auto

lemma kept_funpow:
  assumes "pair_kept w p cs pr"
    and "\<And>s. pair_kept s p cs pr \<Longrightarrow> pair_kept (f s) p cs pr"
  shows "pair_kept ((f ^^ n) w) p cs pr"
  using assms(1) by (induction n) (auto intro: assms(2))

lemma kept_integrate_velocity:
  "pair_kept w p cs pr \<Longrightarrow> pair_kept (integrate_velocity_of dt w b) p cs pr"
  by (simp add: pair_kept_def integrate_velocity_of_def)

lemma kept_integrate_position:
  "pair_kept w p cs pr \<Longrightarrow> pair_kept (integrate_position_of ops dt w b) p cs pr"
  by (simp add: pair_kept_def integrate_position_of_def)

lemma kept_preSolve:
  "q \<noteq> p \<Longrightarrow> pair_kept w p cs pr \<Longrightarrow> pair_kept (Pair_preSolve ops w q) p cs pr"
  by (simp add: pair_kept_def Pair_preSolve_def)

lemma kept_set_velocity: "pair_kept w p cs pr \<Longrightarrow> pair_kept (set_velocity b u w) p cs pr"
  by (simp add: pair_kept_def set_velocity_def)

lemma kept_set_position: "pair_kept w p cs pr \<Longrightarrow> pair_kept (set_position b u w) p cs pr"
  by (simp add: pair_kept_def set_position_def)

lemma kept_solveVelocity:
  assumes "q \<noteq> p" and "pair_kept w p cs pr"
  shows "pair_kept (Pair_solveVelocity ops w q) p cs pr"
proof -
  obtain jn jt vA vB where e: "velocity_impulse ops w q = ((jn, jt), (vA, vB))"
    by (metis prod.exhaust)
  have "pair_kept (w\<lparr>pairHeap := (pairHeap w)
          (q := (pairHeap w q)\<lparr>mNormalImpulse := jn, mTangentImpulse := jt\<rparr>)\<rparr>) p cs pr"
    using assms by (simp add: pair_kept_def)
  then show ?thesis
    by (simp add: Pair_solveVelocity_def e Let_def kept_set_velocity)
qed

lemma kept_solvePosition:
  assumes "pair_kept w p cs pr"
  shows "pair_kept (Pair_solvePosition ops w q) p cs pr"
proof -
  obtain xA xB where e: "position_nudge ops w q = (xA, xB)"
    by (metis prod.exhaust)
  show ?thesis using assms
    by (simp add: Pair_solvePosition_def e Let_def kept_set_position)
qed

text \<open>\<open>__solve\<close> calls the pair methods on the contacts only.\<close>

lemma kept_solve:
  assumes "p \<notin> set cs" and k: "pair_kept w p cs pr"
  shows "pair_kept (solve ops w dt) p cs pr"
proof -
  have neq: "\<And>q. q \<in> set cs \<Longrightarrow> q \<noteq> p" using assms(1) by auto
  have c: "\<And>s. pair_kept s p cs pr \<Longrightarrow> mContacts s = cs" by (simp add: pair_kept_def)
  from k have 1: "pair_kept (integrateVelocities w dt) p cs pr"
    unfolding integrateVelocities_def by (rule kept_foldl) (rule kept_integrate_velocity)
  have 2: "pair_kept (preSolveContacts ops (integrateVelocities w dt)) p cs pr"
    unfolding preSolveContacts_def c[OF 1] using 1
    by (rule kept_foldl) (rule kept_preSolve, rule neq)
  have sv: "\<And>s. pair_kept s p cs pr \<Longrightarrow>
              pair_kept (foldl (Pair_solveVelocity ops) s (mContacts s)) p cs pr"
  proof -
    fix s assume s: "pair_kept s p cs pr"
    show "pair_kept (foldl (Pair_solveVelocity ops) s (mContacts s)) p cs pr"
      unfolding c[OF s] using s by (rule kept_foldl) (rule kept_solveVelocity, rule neq)
  qed
  from 2 have "pair_kept (solveVelocities ops
      (preSolveContacts ops (integrateVelocities w dt))) p cs pr"
    unfolding solveVelocities_def by (rule kept_funpow) (rule sv)
  then have 4: "pair_kept (integratePositions ops
      (solveVelocities ops (preSolveContacts ops (integrateVelocities w dt))) dt) p cs pr"
    unfolding integratePositions_def by (rule kept_foldl) (rule kept_integrate_position)
  have sp: "\<And>s. pair_kept s p cs pr \<Longrightarrow>
              pair_kept (foldl (Pair_solvePosition ops) s (mContacts s)) p cs pr"
    by (erule kept_foldl) (rule kept_solvePosition)
  from 4 show ?thesis
    unfolding solve_def solvePositions_def by (rule kept_funpow) (rule sp)
qed

text \<open>The loop that partitions the pairs.\<close>

lemma collect_pair_flag:
  "mInCollision (pairHeap (collect_pair w q) p) = mInCollision (pairHeap w p)"
  by (simp add: collect_pair_def)

lemma collect_contacts_subset:
  "p \<in> set (mContacts (foldl collect_pair w qs)) \<Longrightarrow>
   p \<in> set (mContacts w) \<or> mInCollision (pairHeap w p)"
proof (induction qs arbitrary: w)
  case Nil
  then show ?case by simp
next
  case (Cons q qs)
  from Cons.IH[of "collect_pair w q"] Cons.prems
  have "p \<in> set (mContacts (collect_pair w q)) \<or> mInCollision (pairHeap (collect_pair w q) p)"
    by simp
  then show ?case
    by (auto simp: collect_pair_def split: if_splits)
qed

lemma separated_collect_pair: "separated w p \<Longrightarrow> separated (collect_pair w q) p"
  by (simp add: separated_def collect_pair_def)

lemma separated_foldl: "separated w p \<Longrightarrow> separated (foldl collect_pair w qs) p"
  by (induction qs arbitrary: w) (simp_all add: separated_collect_pair)

lemma collect_resets:
  "p \<in> set qs \<Longrightarrow> \<not> mInCollision (pairHeap w p) \<Longrightarrow> separated (foldl collect_pair w qs) p"
proof (induction qs arbitrary: w)
  case Nil
  then show ?case by simp
next
  case (Cons q qs)
  show ?case
  proof (cases "p = q")
    case True
    with Cons.prems have "separated (collect_pair w q) p"
      by (simp add: separated_def collect_pair_def)
    then show ?thesis by (simp add: separated_foldl)
  next
    case False
    with Cons.prems have "p \<in> set qs" "\<not> mInCollision (pairHeap (collect_pair w q) p)"
      by (simp_all add: collect_pair_flag)
    from Cons.IH[OF this] show ?thesis by simp
  qed
qed

lemma lists_foldl:
  assumes "lists_are w ps cs"
    and "\<And>s y. lists_are s ps cs \<Longrightarrow> lists_are (f s y) ps cs"
  shows "lists_are (foldl f w ys) ps cs"
  using assms(1) by (induction ys arbitrary: w) (auto intro: assms(2))

lemma lists_narrowPhase: "lists_are (narrowPhase ops w) (mPairs w) []"
proof -
  have "lists_are (w\<lparr>mContacts := []\<rparr>) (mPairs w) []"
    by (simp add: lists_are_def)
  then have "lists_are (updateBodies ops (w\<lparr>mContacts := []\<rparr>)) (mPairs w) []"
    unfolding updateBodies_def
    by (rule lists_foldl) (simp add: lists_are_def RigidBody_update_def)
  then have "lists_are (markPairs (updateBodies ops (w\<lparr>mContacts := []\<rparr>))) (mPairs w) []"
    unfolding markPairs_def by (rule lists_foldl) (simp add: lists_are_def mark_pair_def)
  then show ?thesis
    unfolding narrowPhase_def testPairs_def
    by (rule lists_foldl) (simp add: lists_are_def test_pair_def Pair_test_def)
qed

text \<open>
  C6. A maintained pair that fails the narrow test of a fixed update (it is not in
  collision after the test loop) ends that same update with its accumulated normal
  impulse and its accumulated tangent impulse at zero: the partition loop resets them,
  and the solver, which runs over the contacts only, does not touch the pair again. So
  the pair enters its next collision without accumulated impulse.
\<close>

theorem separated_pair_impulses_reset:
  assumes "p \<in> set (mPairs w)" and "\<not> mInCollision (pairHeap (narrowPhase ops w) p)"
  shows "mNormalImpulse (pairHeap (onFixedUpdate ops w dt) p) = 0 \<and>
         mTangentImpulse (pairHeap (onFixedUpdate ops w dt) p) = 0 \<and>
         \<not> mInCollision (pairHeap (onFixedUpdate ops w dt) p) \<and>
         p \<notin> set (mContacts (onFixedUpdate ops w dt))"
proof -
  let ?n = "narrowPhase ops w"
  let ?c = "collectContacts ?n"
  have l: "mPairs ?n = mPairs w" "mContacts ?n = []"
    using lists_narrowPhase[of ops w] by (simp_all add: lists_are_def)
  have sep: "separated ?c p"
    unfolding collectContacts_def using assms by (simp add: l collect_resets)
  have notin: "p \<notin> set (mContacts ?c)"
    unfolding collectContacts_def using collect_contacts_subset[of p ?n "mPairs ?n"] assms(2)
    by (auto simp: l)
  have "pair_kept ?c p (mContacts ?c) (pairHeap ?c p)" by (simp add: pair_kept_def)
  with notin have "pair_kept (solve ops ?c dt) p (mContacts ?c) (pairHeap ?c p)"
    by (rule kept_solve)
  then have "pairHeap (onFixedUpdate ops w dt) p = pairHeap ?c p"
    and "mContacts (onFixedUpdate ops w dt) = mContacts ?c"
    by (simp_all add: pair_kept_def onFixedUpdate_def)
  with sep notin show ?thesis by (simp add: separated_def)
qed

text \<open>
  In the example pair 0 has accumulated the impulses 3 and 4 while its bodies collided;
  in the next fixed update the bodies have separated.
\<close>

theorem separated_pair_impulses_reset_witness:
  "0 \<in> set (mPairs colliding) \<and>
   \<not> mInCollision (pairHeap (narrowPhase separating_ops colliding) 0) \<and>
   mNormalImpulse (pairHeap colliding 0) = 3 \<and>
   mTangentImpulse (pairHeap colliding 0) = 4 \<and>
   mNormalImpulse (pairHeap (onFixedUpdate separating_ops colliding (1 / 50)) 0) = 0 \<and>
   mTangentImpulse (pairHeap (onFixedUpdate separating_ops colliding (1 / 50)) 0) = 0"
proof -
  have m: "0 \<in> set (mPairs colliding)"
    by (simp add: colliding_state)
  have n: "\<not> mInCollision (pairHeap (narrowPhase separating_ops colliding) 0)"
    unfolding colliding_state
    by (simp add: step_defs separating_ops_def demo_ops_def Let_def)
  have b: "mNormalImpulse (pairHeap colliding 0) = 3" "mTangentImpulse (pairHeap colliding 0) = 4"
    by (simp_all add: colliding_state)
  from separated_pair_impulses_reset[OF m n, of "1 / 50"] show ?thesis
    using m n b by simp
qed

section \<open>Queries\<close>

lemma collisionInfo_never_reports: "collisionInfo w colliderA colliderB = Inl TypeError"
  by (simp add: collisionInfo_def collider_prop_a_def collider_prop_b_def)

text \<open>
  C3. \<open>collisionInfo(colliderA, colliderB, cb, ...)\<close> should find the pair of the two
  colliders in the hash and, when that pair is in collision, call the callback once with
  the overlap and the normal from \<open>colliderA\<close> to \<open>colliderB\<close>. The source builds the key from
  \<open>colliderA.a\<close> and \<open>colliderB.b\<close>, which no collider has, instead of the colliders. In the
  example the pair of colliders 102 and 105 is in the hash and in collision, with normal
  \<open>(1, 0)\<close> and overlap 5, and the callback is not called.
\<close>

theorem collisionInfo_misses_colliding_pair:
  "mPairsHash colliding (Pair_id 102 105) = Some 0 \<and>
   pair_a (pairHeap colliding 0) = 102 \<and> pair_b (pairHeap colliding 0) = 105 \<and>
   mInCollision (pairHeap colliding 0) \<and>
   mNormal (pairHeap colliding 0) = Vector 1 0 \<and> mOverlap (pairHeap colliding 0) = 5 \<and>
   collisionInfo colliding 102 105 = Inl TypeError"
  by (simp add: colliding_state Pair_id_def collisionInfo_never_reports)

text \<open>
  C4. \<open>collisionInfo(A, B, ...)\<close> and \<open>collisionInfo(B, A, ...)\<close> should both call the
  callback for a colliding pair, with the same overlap and opposite normals. For the
  colliding pair of the example neither call reaches the callback.
\<close>

theorem collisionInfo_symmetry_fails:
  "mPairsHash colliding (Pair_id 105 102) = Some 0 \<and>
   mInCollision (pairHeap colliding 0) \<and>
   collisionInfo colliding 102 105 = Inl TypeError \<and>
   collisionInfo colliding 105 102 = Inl TypeError"
  by (simp add: colliding_state Pair_id_def collisionInfo_never_reports)

lemma inCollision_scan_find:
  "inCollision_scan w ps bA bB cb =
     (case find (inCollision_match w bA bB) ps of
        None \<Rightarrow> (False, None)
      | Some p \<Rightarrow> (True, if cb then Some (inCollision_report w bA bB p) else None))"
  by (induction ps)
     (auto simp: inCollision_match_def inCollision_report_def num_of_sign_def Let_def)

text \<open>
  C9, as the claim states it: \<open>inCollision\<close> returns whether the pair list of \<open>bodyA\<close> holds
  a pair that connects \<open>bodyA\<close> and \<open>bodyB\<close>. In the example the bodies 5 and 2 are in the
  world and have not collided: the pair list of body 5 holds pair 0, which connects
  body 2 and body 5, and \<open>inCollision\<close> returns \<open>false\<close>.
\<close>

theorem inCollision_connecting_pair_counterexample:
  "body_mPairs (bodyHeap two_bodies 5) = [0] \<and>
   bodyA (pairHeap two_bodies 0) = 2 \<and> bodyB (pairHeap two_bodies 0) = 5 \<and>
   inCollision two_bodies 5 2 True = (False, None)"
  by (simp add: two_bodies_state inCollision_def)

text \<open>
  C9, amended: \<open>inCollision(bodyA, bodyB, cb?, ...)\<close> scans only the pair list of \<open>bodyA\<close>
  and returns whether it holds a match, that is a pair that is currently in collision
  and connects \<open>bodyA\<close> and \<open>bodyB\<close> in either order. When a callback is passed it is called
  once, for the first match, with the pair's overlap and the pair's normal, negated when
  the pair stores the bodies as \<open>(bodyB, bodyA)\<close>; without a match it is not called.
\<close>

theorem inCollision_first_match:
  "inCollision w bA bB cb =
     (case find (inCollision_match w bA bB) (body_mPairs (bodyHeap w bA)) of
        None \<Rightarrow> (False, None)
      | Some p \<Rightarrow> (True, if cb then Some (inCollision_report w bA bB p) else None))"
  by (simp add: inCollision_def inCollision_scan_find)

theorem inCollision_first_match_witness:
  "inCollision colliding 5 2 True = (True, Some (- 1, 0, 5)) \<and>
   inCollision colliding 2 5 True = (True, Some (1, 0, 5)) \<and>
   inCollision colliding 2 5 False = (True, None) \<and>
   inCollision colliding 5 3 True = (False, None)"
proof -
  have f: "find (inCollision_match colliding 5 2) (body_mPairs (bodyHeap colliding 5)) = Some 0"
    "find (inCollision_match colliding 2 5) (body_mPairs (bodyHeap colliding 2)) = Some 0"
    "find (inCollision_match colliding 5 3) (body_mPairs (bodyHeap colliding 5)) = None"
    by (simp_all add: colliding_state inCollision_match_def)
  have r: "inCollision_report colliding 5 2 0 = (- 1, 0, 5)"
    "inCollision_report colliding 2 5 0 = (1, 0, 5)"
    by (simp_all add: colliding_state inCollision_report_def)
  from inCollision_first_match[of colliding 5 2 True]
    inCollision_first_match[of colliding 2 5 True]
    inCollision_first_match[of colliding 2 5 False]
    inCollision_first_match[of colliding 5 3 True]
  show ?thesis by (simp add: f r)
qed

section \<open>Bodies and colliders entering and leaving\<close>

text \<open>
  C7. \<open>removeBody\<close> of a body that is not tracked and \<open>addBody\<close> of a body that is already
  active should leave the registry as it is. In the example the bodies 5 and 2 are
  active and share pair 0. Removing body 3, which was never added, drops body 2 from the
  active list (\<open>indexOf\<close> is \<open>-1\<close> and \<open>splice(-1, 1)\<close> removes the last element) while pair 0
  remains; adding body 2 again lists it twice and creates a second pair for the same
  two colliders.
\<close>

theorem untracked_remove_and_double_add_corrupt:
  "mBodies two_bodies = [5, 2] \<and> mPairs two_bodies = [0] \<and>
   mBodies (removeBody two_bodies 3) = [5] \<and>
   mPairs (removeBody two_bodies 3) = [0] \<and>
   bodyA (pairHeap (removeBody two_bodies 3) 0) = 2 \<and>
   mBodies (addBody two_bodies 2) = [5, 2, 2] \<and>
   mPairs (addBody two_bodies 2) = [0, 1] \<and>
   body_mPairs (bodyHeap (addBody two_bodies 2) 5) = [0, 1]"
proof -
  have "mBodies two_bodies = [5, 2] \<and> mPairs two_bodies = [0]"
    by (simp add: two_bodies_state)
  moreover have "mBodies (removeBody two_bodies 3) = [5] \<and>
    mPairs (removeBody two_bodies 3) = [0] \<and>
    bodyA (pairHeap (removeBody two_bodies 3) 0) = 2"
    by (simp add: untracked_removed_state)
  moreover have "mBodies (addBody two_bodies 2) = [5, 2, 2] \<and>
    mPairs (addBody two_bodies 2) = [0, 1] \<and>
    body_mPairs (bodyHeap (addBody two_bodies 2) 5) = [0, 1]"
    unfolding two_bodies_state
    by (simp add: registry_defs demo_body_def Let_def)
  ultimately show ?thesis by blast
qed

text \<open>
  C8. Detaching the last explicit collider of an active body should tear down its pairs
  and create the pairs of the body's default collider; attaching the first explicit
  collider should do the reverse. In the example body 4 is active with the explicit
  collider 10, paired with collider 105 of body 5, and collider 10 is detached.
  \<open>onComponentRemoved\<close> passes the collider alone to \<open>__removeCollider\<close>, which throws on its
  first statement: pair 0 still joins the colliders 10 and 105. \<open>__removeCollider\<close> called
  with the game object and the collider replaces the pair by one of the default collider
  104, and the attach direction (collider 20 on game object 2) works as claimed.
\<close>

theorem detached_collider_pairs_stay:
  "onComponentRemoved shape_detached 4 (ColliderC 10) = Inl TypeError \<and>
   (mPairs shape_detached = [0] \<and>
    pair_a (pairHeap shape_detached 0) = 10 \<and> pair_b (pairHeap shape_detached 0) = 105 \<and>
    mCollidersCache shape_detached 4 = [] \<and>
    map_sum id (\<lambda>w. map (\<lambda>p. (pair_a (pairHeap w p), pair_b (pairHeap w p))) (mPairs w))
      (removeCollider shape_detached (GameObjectV 4) (ColliderV 10)) = Inr [(104, 105)] \<and>
    map (\<lambda>p. (pair_a (pairHeap two_bodies p), pair_b (pairHeap two_bodies p)))
      (mPairs two_bodies) = [(102, 105)] \<and>
    (let w = onComponentAdded (setColliders 2 [20] two_bodies) 2 (ColliderC 20)
     in map (\<lambda>p. (pair_a (pairHeap w p), pair_b (pairHeap w p))) (mPairs w)) = [(20, 105)])"
proof (rule conjI)
  show "onComponentRemoved shape_detached 4 (ColliderC 10) = Inl TypeError"
    by (simp add: onComponentRemoved_def removeCollider_def)
next
  show "mPairs shape_detached = [0] \<and>
    pair_a (pairHeap shape_detached 0) = 10 \<and> pair_b (pairHeap shape_detached 0) = 105 \<and>
    mCollidersCache shape_detached 4 = [] \<and>
    map_sum id (\<lambda>w. map (\<lambda>p. (pair_a (pairHeap w p), pair_b (pairHeap w p))) (mPairs w))
      (removeCollider shape_detached (GameObjectV 4) (ColliderV 10)) = Inr [(104, 105)] \<and>
    map (\<lambda>p. (pair_a (pairHeap two_bodies p), pair_b (pairHeap two_bodies p)))
      (mPairs two_bodies) = [(102, 105)] \<and>
    (let w = onComponentAdded (setColliders 2 [20] two_bodies) 2 (ColliderC 20)
     in map (\<lambda>p. (pair_a (pairHeap w p), pair_b (pairHeap w p))) (mPairs w)) = [(20, 105)]"
    unfolding shape_detached_def explicit_shape_state two_bodies_state
    by (simp add: registry_defs demo_body_def Let_def)
qed

text \<open>
  C10. When the game object has no \<open>RigidBody\<close>, or its \<open>RigidBody\<close> is not in the
  active-body list, adding or removing a collider leaves the whole world as it is: no
  pair is created, removed or recycled and no pair list of a body changes. This holds
  for \<open>__addCollider\<close> and \<open>__removeCollider\<close> called with the game object and the collider,
  and for the two notifications of the scene graph.
\<close>

theorem collider_event_without_active_body:
  "(case rigidBodyOf w child of None \<Rightarrow> True | Some body \<Rightarrow> body \<notin> set (mBodies w)) \<Longrightarrow>
   addCollider w child collider = w \<and>
   removeCollider w (GameObjectV child) (ColliderV collider) = Inr w \<and>
   onComponentAdded w child (ColliderC collider) = w \<and>
   world_after w (onComponentRemoved w child (ColliderC collider)) = w"
  by (auto simp: addCollider_def removeCollider_def onComponentAdded_def onComponentRemoved_def
        world_after_def indexOf_absent split: option.splits)

theorem collider_event_without_active_body_witness:
  "rigidBodyOf two_bodies 9 = None \<and>
   addCollider two_bodies 9 30 = two_bodies \<and>
   removeCollider two_bodies (GameObjectV 9) (ColliderV 30) = Inr two_bodies \<and>
   rigidBodyOf two_bodies 3 = Some 3 \<and> 3 \<notin> set (mBodies two_bodies) \<and>
   addCollider two_bodies 3 30 = two_bodies \<and>
   removeCollider two_bodies (GameObjectV 3) (ColliderV 30) = Inr two_bodies"
proof -
  have n: "rigidBodyOf two_bodies 9 = None"
    by (simp add: two_bodies_state)
  have s: "rigidBodyOf two_bodies 3 = Some 3" "3 \<notin> set (mBodies two_bodies)"
    by (simp_all add: two_bodies_state)
  from collider_event_without_active_body[of two_bodies 9 30]
    collider_event_without_active_body[of two_bodies 3 30]
  show ?thesis by (simp add: n s)
qed

text \<open>
  C1. After every sequence of \<open>addBody\<close>, \<open>removeBody\<close>, \<open>addShape\<close> and \<open>removeShape\<close> calls
  the world should hold at most one pair per unordered pair of shapes. In the example the
  bodies 5 and 4 enter the world, body 4 with the explicit collider 10, which gives pair 0
  for the colliders 10 and 105. Collider 10 is detached from game object 4:
  \<open>onComponentRemoved\<close> passes it alone to \<open>__removeCollider\<close>, which throws, and pair 0
  stays. Collider 10 is attached again: \<open>onComponentAdded\<close> creates pair 1 for the same
  colliders 10 and 105. Every call of this sequence is well-formed. A second \<open>addBody(2)\<close>
  after \<open>addBody(5)\<close>, \<open>addBody(2)\<close> also leaves two pairs for the colliders 102 and 105.
\<close>

theorem reattached_collider_pair_duplicated:
  "mBodies explicit_shape = [5, 4] \<and> mCollidersCache explicit_shape 4 = [10] \<and>
   mPairs explicit_shape = [0] \<and>
   onComponentRemoved shape_detached 4 (ColliderC 10) = Inl TypeError \<and>
   mBodies shape_reattached = [5, 4] \<and> mCollidersCache shape_reattached 4 = [10] \<and>
   mPairs shape_reattached = [0, 1] \<and>
   pair_a (pairHeap shape_reattached 0) = 10 \<and> pair_b (pairHeap shape_reattached 0) = 105 \<and>
   pair_a (pairHeap shape_reattached 1) = 10 \<and> pair_b (pairHeap shape_reattached 1) = 105 \<and>
   \<not> distinct (map (\<lambda>p. {pair_a (pairHeap shape_reattached p),
                            pair_b (pairHeap shape_reattached p)})
                   (mPairs shape_reattached)) \<and>
   mPairs twice_listed = [0, 1] \<and>
   pair_a (pairHeap twice_listed 0) = 102 \<and> pair_b (pairHeap twice_listed 0) = 105 \<and>
   pair_a (pairHeap twice_listed 1) = 102 \<and> pair_b (pairHeap twice_listed 1) = 105"
proof -
  have e: "mBodies explicit_shape = [5, 4] \<and> mCollidersCache explicit_shape 4 = [10] \<and>
    mPairs explicit_shape = [0]"
    by (simp add: explicit_shape_state)
  have t: "onComponentRemoved shape_detached 4 (ColliderC 10) = Inl TypeError"
    by (simp add: onComponentRemoved_def removeCollider_def)
  have s: "shape_reattached = onComponentAdded (setColliders 4 [10] shape_detached) 4 (ColliderC 10)"
    by (simp add: shape_reattached_def t world_after_def)
  have r: "mBodies shape_reattached = [5, 4] \<and> mCollidersCache shape_reattached 4 = [10] \<and>
    mPairs shape_reattached = [0, 1] \<and>
    pair_a (pairHeap shape_reattached 0) = 10 \<and> pair_b (pairHeap shape_reattached 0) = 105 \<and>
    pair_a (pairHeap shape_reattached 1) = 10 \<and> pair_b (pairHeap shape_reattached 1) = 105"
    unfolding s shape_detached_def explicit_shape_state
    by (simp add: registry_defs demo_body_def Let_def)
  then have d: "\<not> distinct (map (\<lambda>p. {pair_a (pairHeap shape_reattached p),
                            pair_b (pairHeap shape_reattached p)})
                   (mPairs shape_reattached))"
    by simp
  have "mPairs twice_listed = [0, 1] \<and>
    pair_a (pairHeap twice_listed 0) = 102 \<and> pair_b (pairHeap twice_listed 0) = 105 \<and>
    pair_a (pairHeap twice_listed 1) = 102 \<and> pair_b (pairHeap twice_listed 1) = 105"
    unfolding twice_listed_def two_bodies_state
    by (simp add: registry_defs demo_body_def Let_def)
  with e t r d show ?thesis by blast
qed


section \<open>The registry methods on well-formed input\<close>

text \<open>
  Each of \<open>__addBody\<close>, \<open>__removeBody\<close>, \<open>__addCollider\<close> and \<open>__removeCollider\<close> keeps the
  invariant of the registry when its argument is well-formed: the body it adds is attached
  and not active, the body it removes is active, the collider it attaches is attached
  nowhere, the collider it detaches was attached to the game object.
\<close>

subsection \<open>What depends on the scene only\<close>

lemma shapes_scene: "scene_of w' = scene_of w \<Longrightarrow> shapes w' b = shapes w b"
  by (simp add: scene_of_def shapes_def fun_eq_iff split: list.splits)

lemma mBodies_scene: "scene_of w' = scene_of w \<Longrightarrow> mBodies w' = mBodies w"
  by (simp add: scene_of_def)

lemma shapes_scene_all: "scene_of w' = scene_of w \<Longrightarrow> shapes w' = shapes w"
  by (rule ext) (rule shapes_scene)

lemma mCollidersCache_scene: "scene_of w' = scene_of w \<Longrightarrow> mCollidersCache w' = mCollidersCache w"
  by (simp add: scene_of_def)

lemma rigidBodyOf_scene: "scene_of w' = scene_of w \<Longrightarrow> rigidBodyOf w' = rigidBodyOf w"
  by (simp add: scene_of_def)

lemma mCollider_scene:
  "scene_of w' = scene_of w \<Longrightarrow> mCollider (bodyHeap w' b) = mCollider (bodyHeap w b)"
  by (simp add: scene_of_def fun_eq_iff)

lemma orient_scene: "scene_of w' = scene_of w \<Longrightarrow> orient w' = orient w"
  by (simp add: scene_of_def orient_def fun_eq_iff)

lemma scene_ok_scene: "scene_of w' = scene_of w \<Longrightarrow> scene_ok w' = scene_ok w"
  by (simp add: scene_of_def scene_ok_def fun_eq_iff)

lemma attached_scene: "scene_of w' = scene_of w \<Longrightarrow> attached w' = attached w"
  by (simp add: scene_of_def attached_def fun_eq_iff)

lemma entry_ok_scene:
  assumes "scene_of w' = scene_of w"
  shows "entry_ok w' e = entry_ok w e"
  by (cases e) (simp add: shapes_scene_all[OF assms] mBodies_scene[OF assms])

lemma other_bodies_scene:
  assumes "scene_of w' = scene_of w"
  shows "other_bodies w' b = other_bodies w b"
  by (simp add: other_bodies_def mBodies_scene[OF assms])

lemma other_shapes_scene:
  assumes "scene_of w' = scene_of w"
  shows "other_shapes w' b = other_shapes w b"
  by (simp add: other_shapes_def shapes_scene_all[OF assms] other_bodies_scene[OF assms])

lemma new_entries_scene:
  assumes "scene_of w' = scene_of w"
  shows "new_entries w' c b = new_entries w c b"
  by (simp add: new_entries_def shapes_scene_all[OF assms] other_bodies_scene[OF assms]
        orient_scene[OF assms])

subsection \<open>\<open>__addPair\<close>\<close>

lemma mPairs_all_pairs: "set (mPairs w) \<subseteq> set (all_pairs w)"
  by (auto simp: all_pairs_def)

lemma all_pairs_pool_upd:
  "pools w k = ys @ [y] \<Longrightarrow>
   mset (all_pairs (w\<lparr>pools := (pools w)(k := ys)\<rparr>)) + {#y#} = mset (all_pairs w)"
  by (cases k) (simp_all add: all_pairs_def)

lemma pool_get_snoc:
  "pools w k = ys @ [y] \<Longrightarrow> pool_get k w = (y, w\<lparr>pools := (pools w)(k := ys)\<rparr>)"
  by (cases ys) (simp_all add: pool_get_def)

lemma pool_get_fresh:
  assumes "pool_ok w" and "pool_get k w = (p, w1)"
  shows "p \<notin> set (mPairs w)" and "mPairs w1 = mPairs w"
    and "distinct (p # all_pairs w1)" and "\<forall>q \<in> set (p # all_pairs w1). q < nextPair w1"
    and "\<And>q. q \<noteq> p \<Longrightarrow> pairHeap w1 q = pairHeap w q"
    and "scene_of w1 = scene_of w"
proof -
  have "p \<notin> set (mPairs w) \<and> mPairs w1 = mPairs w \<and> distinct (p # all_pairs w1) \<and>
        (\<forall>q \<in> set (p # all_pairs w1). q < nextPair w1)"
  proof (cases "pools w k" rule: rev_cases)
    case Nil
    with assms(2) have e: "p = nextPair w"
      "w1 = w\<lparr>pairHeap := (pairHeap w)(nextPair w := Pair_new k), nextPair := Suc (nextPair w)\<rparr>"
      by (auto simp: pool_get_def)
    have a: "all_pairs w1 = all_pairs w" "mPairs w1 = mPairs w" "nextPair w1 = Suc (nextPair w)"
      unfolding e by (simp_all add: all_pairs_def)
    from assms(1) have "p \<notin> set (all_pairs w)"
      unfolding e pool_ok_def by auto
    with assms(1) mPairs_all_pairs[of w] show ?thesis
      unfolding a pool_ok_def by (auto simp: e(1))
  next
    case (snoc ys y)
    with assms(2) have e: "p = y" "w1 = w\<lparr>pools := (pools w)(k := ys)\<rparr>"
      by (simp_all add: pool_get_snoc)
    have a: "mPairs w1 = mPairs w" "nextPair w1 = nextPair w"
      unfolding e by simp_all
    have m: "mset (p # all_pairs w1) = mset (all_pairs w)"
      using all_pairs_pool_upd[OF snoc] unfolding e by simp
    then have d: "distinct (p # all_pairs w1) = distinct (all_pairs w)"
      by (rule mset_eq_imp_distinct_iff)
    from m have s: "set (p # all_pairs w1) = set (all_pairs w)"
      by (rule mset_eq_setD)
    from assms(1) have 1: "distinct (p # all_pairs w1)"
      and 2: "\<forall>q \<in> set (p # all_pairs w1). q < nextPair w1"
      unfolding d s a pool_ok_def by simp_all
    from 1 have "p \<notin> set (all_pairs w1)" by simp
    moreover have "set (mPairs w) \<subseteq> set (all_pairs w1)"
      using mPairs_all_pairs[of w1] by (simp add: a)
    ultimately have "p \<notin> set (mPairs w)" by blast
    with 1 2 a show ?thesis by blast
  qed
  then show "p \<notin> set (mPairs w)" "mPairs w1 = mPairs w" "distinct (p # all_pairs w1)"
    "\<forall>q \<in> set (p # all_pairs w1). q < nextPair w1"
    by blast+
  show "\<And>q. q \<noteq> p \<Longrightarrow> pairHeap w1 q = pairHeap w q"
    using assms(2) by (auto simp: pool_get_def split: list.splits)
  show "scene_of w1 = scene_of w"
    using assms(2) by (auto simp: pool_get_def scene_of_def split: list.splits)
qed

lemma scene_push_body_pair: "scene_of (push_body_pair b p w) = scene_of w"
  by (auto simp: scene_of_def push_body_pair_def fun_eq_iff)

lemma swap_iff:
  "(pair_class ia ib = BoxToCirclePair \<and> ib) = (ib \<and> \<not> ia)"
  by (simp add: pair_class_def)

lemma addPair_effect:
  assumes "pool_ok w"
  shows "entries (addPair w c d bA bB) = entries w @ [orient w c d bA bB]"
    and "pool_ok (addPair w c d bA bB)"
    and "scene_of (addPair w c d bA bB) = scene_of w"
proof -
  define k where "k = pair_class (isBox (colliderHeap w c)) (isBox (colliderHeap w d))"
  obtain p w1 where g: "pool_get k w = (p, w1)" by (cases "pool_get k w")
  note f = pool_get_fresh[OF assms g]
  obtain c' d' bA' bB' where e: "orient w c d bA bB = (c', d', bA', bB')"
    by (cases "orient w c d bA bB")
  define w2 where "w2 = w1\<lparr>pairHeap := (pairHeap w1)(p := Pair_set (pairHeap w1 p) c' d' bA' bB'),
           mPairs := mPairs w1 @ [p],
           mPairsHash := (mPairsHash w1)(Pair_id c' d' \<mapsto> p)\<rparr>"
  have r: "addPair w c d bA bB = push_body_pair bB' p (push_body_pair bA' p w2)"
  proof (cases "isBox (colliderHeap w d) \<and> \<not> isBox (colliderHeap w c)")
    case True
    with e have "c' = d" "d' = c" "bA' = bB" "bB' = bA" by (simp_all add: orient_def)
    moreover from True g have "pool_get (pair_class False True) w = (p, w1)"
      by (simp add: k_def)
    ultimately show ?thesis using True
      by (simp add: addPair_def Let_def w2_def swap_iff)
  next
    case False
    with e have o: "c' = c" "d' = d" "bA' = bA" "bB' = bB" by (simp_all add: orient_def)
    have nsw: "(k = BoxToCirclePair \<and> isBox (colliderHeap w d)) = False"
      using False by (simp add: k_def swap_iff)
    show ?thesis
      by (simp add: addPair_def Let_def k_def[symmetric] g w2_def nsw o)
  qed
  have h: "pairHeap (addPair w c d bA bB) = pairHeap w2" "mPairs (addPair w c d bA bB) = mPairs w2"
    "pools (addPair w c d bA bB) = pools w2" "nextPair (addPair w c d bA bB) = nextPair w2"
    by (simp_all add: r push_body_pair_def)
  have "map (entry (addPair w c d bA bB)) (mPairs w) = map (entry w) (mPairs w)"
    using f(1) f(5) by (auto simp: entry_def h w2_def)
  moreover have "entry (addPair w c d bA bB) p = (c', d', bA', bB')"
    by (simp add: entry_def h w2_def Pair_set_def)
  ultimately show "entries (addPair w c d bA bB) = entries w @ [orient w c d bA bB]"
    by (simp add: entries_def e h(2)) (simp add: w2_def f(2))
  have "all_pairs (addPair w c d bA bB) =
      (mPairs w1 @ [p]) @ pools w1 BoxToBoxPair @ pools w1 CircleToCirclePair @
        pools w1 BoxToCirclePair"
    by (simp add: all_pairs_def h w2_def)
  moreover have "all_pairs w1 =
      mPairs w1 @ pools w1 BoxToBoxPair @ pools w1 CircleToCirclePair @ pools w1 BoxToCirclePair"
    by (simp add: all_pairs_def)
  moreover have "nextPair (addPair w c d bA bB) = nextPair w1"
    by (simp add: h w2_def)
  ultimately show "pool_ok (addPair w c d bA bB)"
    using f(3) f(4) unfolding pool_ok_def by auto
  have "scene_of w2 = scene_of w1"
    by (simp add: scene_of_def w2_def)
  with f(6) show "scene_of (addPair w c d bA bB) = scene_of w"
    by (simp add: r scene_push_body_pair)
qed

subsection \<open>\<open>__removePairs\<close>\<close>

lemma splice1_nat: "i < length xs \<Longrightarrow> splice1 xs (int i) = take i xs @ drop (Suc i) xs"
  by (simp add: splice1_def)

lemma scene_splice_body_pair: "scene_of (splice_body_pair b p w) = scene_of w"
  by (auto simp: scene_of_def splice_body_pair_def fun_eq_iff)

lemma all_pairs_release:
  assumes "i < length (mPairs w)"
  shows "mset (all_pairs (w\<lparr>mPairs := take i (mPairs w) @ drop (Suc i) (mPairs w),
                             pools := (pools w)(k := pools w k @ [mPairs w ! i])\<rparr>)) =
         mset (all_pairs w)"
proof -
  have "mset (take i (mPairs w) @ drop (Suc i) (mPairs w)) + {#mPairs w ! i#} = mset (mPairs w)"
    using id_take_nth_drop[OF assms] by (metis mset.simps(2) mset_append union_mset_add_mset_right
        add.right_neutral add_mset_add_single)
  then show ?thesis
    by (cases k) (simp_all add: all_pairs_def)
qed

lemma removePairs_at_effect:
  assumes "pool_ok w" and "i < length (mPairs w)"
  shows "entries (removePairs_at c i w) =
           (if touches c (entries w ! i) then take i (entries w) @ drop (Suc i) (entries w)
            else entries w)"
    and "pool_ok (removePairs_at c i w)"
    and "scene_of (removePairs_at c i w) = scene_of w"
proof -
  define p where "p = mPairs w ! i"
  define pr where "pr = pairHeap w p"
  have t: "touches c (entries w ! i) = (pair_a pr = c \<or> pair_b pr = c)"
    using assms(2) by (simp add: entries_def entry_def p_def pr_def)
  define w3 where "w3 = w\<lparr>mPairs := take i (mPairs w) @ drop (Suc i) (mPairs w),
       pools := (pools w)(kind pr := pools w (kind pr) @ [p]),
       mPairsHash := (mPairsHash w)(Pair_id (pair_a pr) (pair_b pr) := None)\<rparr>"
  have r: "removePairs_at c i w =
      (if touches c (entries w ! i)
       then splice_body_pair (bodyB pr) p (splice_body_pair (bodyA pr) p w3) else w)"
    unfolding t
    by (simp add: removePairs_at_def Let_def p_def[symmetric] pr_def[symmetric] w3_def
          pool_release_def splice1_nat[OF assms(2)])
  have h: "pairHeap (splice_body_pair (bodyB pr) p (splice_body_pair (bodyA pr) p w3)) = pairHeap w"
    "mPairs (splice_body_pair (bodyB pr) p (splice_body_pair (bodyA pr) p w3)) =
       take i (mPairs w) @ drop (Suc i) (mPairs w)"
    "all_pairs (splice_body_pair (bodyB pr) p (splice_body_pair (bodyA pr) p w3)) = all_pairs w3"
    "nextPair (splice_body_pair (bodyB pr) p (splice_body_pair (bodyA pr) p w3)) = nextPair w"
    by (simp_all add: splice_body_pair_def w3_def all_pairs_def)
  show "entries (removePairs_at c i w) =
           (if touches c (entries w ! i) then take i (entries w) @ drop (Suc i) (entries w)
            else entries w)"
    by (simp add: r entries_def entry_def[abs_def] h take_map drop_map)
  have "mset (all_pairs w3) = mset (all_pairs w)"
    using all_pairs_release[OF assms(2), of "kind pr"]
    by (simp add: w3_def p_def all_pairs_def)
  then have "distinct (all_pairs w3) = distinct (all_pairs w)"
    and "set (all_pairs w3) = set (all_pairs w)"
    by (rule mset_eq_imp_distinct_iff, rule mset_eq_setD)
  with assms(1) show "pool_ok (removePairs_at c i w)"
    by (simp add: r pool_ok_def h)
  have "scene_of w3 = scene_of w" by (simp add: scene_of_def w3_def)
  then show "scene_of (removePairs_at c i w) = scene_of w"
    by (simp add: r scene_splice_body_pair)
qed

lemma removePairs_loop_effect:
  assumes "pool_ok w" and "n \<le> length (mPairs w)"
  shows "entries (removePairs_loop c n w) =
           filter (\<lambda>e. \<not> touches c e) (take n (entries w)) @ drop n (entries w) \<and>
         pool_ok (removePairs_loop c n w) \<and>
         scene_of (removePairs_loop c n w) = scene_of w"
  using assms
proof (induction n arbitrary: w)
  case 0
  then show ?case by simp
next
  case (Suc n)
  let ?w = "removePairs_at c n w"
  from Suc.prems have n: "n < length (mPairs w)" by simp
  note a = removePairs_at_effect[OF Suc.prems(1) n, of c]
  have l: "length (entries w) = length (mPairs w)" "length (entries ?w) = length (mPairs ?w)"
    by (simp_all add: entries_def)
  have "n \<le> length (entries ?w)"
    using n by (auto simp: a(1) l(1))
  then have "n \<le> length (mPairs ?w)" by (simp add: l(2))
  from Suc.IH[OF a(2) this]
  have ih: "entries (removePairs_loop c n ?w) =
      filter (\<lambda>e. \<not> touches c e) (take n (entries ?w)) @ drop n (entries ?w)"
    and p: "pool_ok (removePairs_loop c n ?w)"
    and s: "scene_of (removePairs_loop c n ?w) = scene_of ?w"
    by blast+
  have "filter (\<lambda>e. \<not> touches c e) (take n (entries ?w)) @ drop n (entries ?w) =
      filter (\<lambda>e. \<not> touches c e) (take (Suc n) (entries w)) @ drop (Suc n) (entries w)"
  proof (cases "touches c (entries w ! n)")
    case True
    then show ?thesis
      using n by (simp add: a(1) l(1) take_Suc_conv_app_nth)
  next
    case False
    then show ?thesis
      using n by (simp add: a(1) l(1) take_Suc_conv_app_nth Cons_nth_drop_Suc)
  qed
  with ih p s a(3) show ?case by simp
qed

lemma removePairs_effect:
  assumes "pool_ok w"
  shows "entries (removePairs w c) = filter (\<lambda>e. \<not> touches c e) (entries w)"
    and "pool_ok (removePairs w c)"
    and "scene_of (removePairs w c) = scene_of w"
  using removePairs_loop_effect[OF assms order_refl, of c]
  by (simp_all add: removePairs_def entries_def)

subsection \<open>\<open>__addPairs\<close>\<close>

lemma addPair_fold:
  assumes "pool_ok w"
  shows "entries (foldl (\<lambda>w' d. addPair w' c d b b') w ds) =
           entries w @ map (\<lambda>d. orient w c d b b') ds \<and>
         pool_ok (foldl (\<lambda>w' d. addPair w' c d b b') w ds) \<and>
         scene_of (foldl (\<lambda>w' d. addPair w' c d b b') w ds) = scene_of w"
  using assms
proof (induction ds arbitrary: w)
  case Nil
  then show ?case by simp
next
  case (Cons d ds)
  note a = addPair_effect[OF Cons.prems, of c d b b']
  from Cons.IH[OF a(2)] show ?case
    by (simp add: a(1) a(3) orient_scene[OF a(3)])
qed

lemma addPairs_body_shapes:
  "addPairs_body c b w b' =
     (if b' = b then w else foldl (\<lambda>w' d. addPair w' c d b b') w (shapes w b'))"
  by (simp add: addPairs_body_def shapes_def split: list.splits)

lemma addPairs_body_fold:
  assumes "pool_ok w"
  shows "entries (foldl (addPairs_body c b) w bs) =
           entries w @
           concat (map (\<lambda>b'. map (\<lambda>d. orient w c d b b') (shapes w b'))
                     (filter (\<lambda>b'. b' \<noteq> b) bs)) \<and>
         pool_ok (foldl (addPairs_body c b) w bs) \<and>
         scene_of (foldl (addPairs_body c b) w bs) = scene_of w"
  using assms
proof (induction bs arbitrary: w)
  case Nil
  then show ?case by simp
next
  case (Cons b' bs)
  show ?case
  proof (cases "b' = b")
    case True
    with Cons.IH[OF Cons.prems] show ?thesis
      by (simp add: addPairs_body_shapes)
  next
    case False
    let ?w = "foldl (\<lambda>w' d. addPair w' c d b b') w (shapes w b')"
    from addPair_fold[OF Cons.prems, of c b b' "shapes w b'"]
    have e: "entries ?w = entries w @ map (\<lambda>d. orient w c d b b') (shapes w b')"
      and p: "pool_ok ?w" and s: "scene_of ?w = scene_of w"
      by blast+
    from Cons.IH[OF p] False show ?thesis
      by (simp add: addPairs_body_shapes e s orient_scene[OF s] shapes_scene_all[OF s])
  qed
qed

lemma addPairs_effect:
  assumes "pool_ok w"
  shows "entries (addPairs w c b) = entries w @ new_entries w c b"
    and "pool_ok (addPairs w c b)"
    and "scene_of (addPairs w c b) = scene_of w"
proof -
  define w0 where "w0 = w\<lparr>colliderHeap := (colliderHeap w)
            (c := (colliderHeap w c)\<lparr>mChanged := True\<rparr>)\<rparr>"
  have s0: "scene_of w0 = scene_of w"
    by (auto simp: scene_of_def w0_def fun_eq_iff)
  have e0: "entries w0 = entries w" "pool_ok w0 = pool_ok w" "mBodies w0 = mBodies w"
    by (simp_all add: w0_def entries_def entry_def[abs_def] pool_ok_def all_pairs_def)
  from assms have "pool_ok w0" by (simp add: e0)
  from addPairs_body_fold[OF this, of c b "mBodies w"]
  show "entries (addPairs w c b) = entries w @ new_entries w c b"
    and "pool_ok (addPairs w c b)"
    and "scene_of (addPairs w c b) = scene_of w"
    by (simp_all add: addPairs_def w0_def[symmetric] e0 s0 new_entries_def other_bodies_def
          orient_scene[OF s0] shapes_scene_all[OF s0])
qed

subsection \<open>Pair ids and entries\<close>

lemma Pair_id_eq_iff:
  "Pair_id c d = Pair_id c' d' \<longleftrightarrow> (c = c' \<and> d = d') \<or> (c = d' \<and> d = c')"
  by (auto simp: Pair_id_def min_def max_def split: if_splits)

lemma entry_key_orient: "entry_key (orient w c d bA bB) = Pair_id c d"
  by (auto simp: orient_def Pair_id_eq_iff)

lemma touches_orient: "touches x (orient w c d bA bB) = (x = c \<or> x = d)"
  by (auto simp: orient_def)

lemma key_touches: "entry_key e = Pair_id c d \<Longrightarrow> touches c e"
  by (cases e) (auto simp: Pair_id_eq_iff)

lemma new_entries_keys:
  "map entry_key (new_entries w c b) = map (Pair_id c) (other_shapes w b)"
  by (simp add: new_entries_def other_shapes_def map_concat comp_def entry_key_orient)

lemma new_entries_touch:
  "e \<in> set (new_entries w c b) \<Longrightarrow> touches x e \<Longrightarrow> x = c \<or> x \<in> set (other_shapes w b)"
  by (auto simp: new_entries_def other_shapes_def touches_orient)

lemma new_entries_ok:
  assumes "e \<in> set (new_entries w c b)" and "b \<in> set (mBodies w)" and "c \<in> set (shapes w b)"
  shows "entry_ok w e"
proof -
  from assms(1) obtain b' d where
    b': "b' \<in> set (mBodies w)" "b' \<noteq> b" "d \<in> set (shapes w b')" and e: "e = orient w c d b b'"
    by (auto simp: new_entries_def other_bodies_def)
  with assms(2,3) show ?thesis
    by (auto simp: orient_def)
qed

lemma distinct_Pair_id: "distinct ds \<Longrightarrow> distinct (map (Pair_id c) ds)"
  by (auto simp: distinct_map inj_on_def Pair_id_eq_iff)

lemma keys_append:
  assumes "distinct (map entry_key es)" and "distinct (other_shapes w b)"
    and "\<forall>e \<in> set es. \<not> touches c e"
  shows "distinct (map entry_key (es @ new_entries w c b))"
proof -
  have "distinct (map entry_key (new_entries w c b))"
    using assms(2) by (simp add: new_entries_keys distinct_Pair_id)
  moreover have "entry_key ` set es \<inter> entry_key ` set (new_entries w c b) = {}"
  proof (rule ccontr)
    assume "entry_key ` set es \<inter> entry_key ` set (new_entries w c b) \<noteq> {}"
    then obtain e n where e: "e \<in> set es" and n: "n \<in> set (new_entries w c b)"
      and k: "entry_key e = entry_key n"
      by (auto simp: image_iff) metis
    from n have "entry_key n \<in> set (map entry_key (new_entries w c b))" by simp
    then obtain d where "entry_key n = Pair_id c d"
      unfolding new_entries_keys by auto
    with k have "touches c e" by (simp add: key_touches)
    with e assms(3) show False by blast
  qed
  ultimately show ?thesis using assms(1) by simp
qed

subsection \<open>Shapes of attached bodies\<close>

lemma shapes_distinct: "scene_ok w \<Longrightarrow> distinct (shapes w b)"
  by (auto simp: scene_ok_def shapes_def split: list.splits dest: spec[where x = "gameObject (bodyHeap w b)"])

lemma attached_gameObject:
  "attached w b \<Longrightarrow> attached w b' \<Longrightarrow> b \<noteq> b' \<Longrightarrow>
   gameObject (bodyHeap w b) \<noteq> gameObject (bodyHeap w b')"
  by (auto simp: attached_def)

lemma shapes_cases:
  "x \<in> set (shapes w b) \<Longrightarrow>
   x \<in> set (mCollidersCache w (gameObject (bodyHeap w b))) \<or> x = mCollider (bodyHeap w b)"
  by (auto simp: shapes_def split: list.splits)

lemma shapes_disjoint:
  assumes "scene_ok w" and "attached w b" and "attached w b'" and "b \<noteq> b'"
  shows "set (shapes w b) \<inter> set (shapes w b') = {}"
proof (rule ccontr)
  assume "set (shapes w b) \<inter> set (shapes w b') \<noteq> {}"
  then obtain x where x: "x \<in> set (shapes w b)" "x \<in> set (shapes w b')" by blast
  let ?g = "gameObject (bodyHeap w b)" and ?g' = "gameObject (bodyHeap w b')"
  have g: "?g \<noteq> ?g'" using assms(2-4) by (rule attached_gameObject)
  from assms(1) have d: "set (mCollidersCache w ?g) \<inter> set (mCollidersCache w ?g') = {}"
    and n: "\<And>b g. mCollider (bodyHeap w b) \<notin> set (mCollidersCache w g)"
    and i: "mCollider (bodyHeap w b) = mCollider (bodyHeap w b') \<Longrightarrow> b = b'"
    using g by (auto simp: scene_ok_def)
  from shapes_cases[OF x(1)] shapes_cases[OF x(2)] d n i assms(4) show False
    by (metis disjoint_iff)
qed

lemma distinct_concat_map:
  assumes "distinct bs" and "\<And>b. b \<in> set bs \<Longrightarrow> distinct (f b)"
    and "\<And>b b'. b \<in> set bs \<Longrightarrow> b' \<in> set bs \<Longrightarrow> b \<noteq> b' \<Longrightarrow> set (f b) \<inter> set (f b') = {}"
  shows "distinct (concat (map f bs))"
  using assms
proof (induction bs)
  case Nil
  then show ?case by simp
next
  case (Cons b bs)
  have "distinct (concat (map f bs))"
    using Cons.prems by (intro Cons.IH) auto
  moreover have "distinct (f b)" using Cons.prems(2) by simp
  moreover have "set (f b) \<inter> set (f b') = {}" if "b' \<in> set bs" for b'
    using Cons.prems(1) Cons.prems(3)[of b b'] that by auto
  ultimately show ?case by auto
qed

lemma other_shapes_distinct:
  assumes "scene_ok w" and "distinct (mBodies w)" and "list_all (attached w) (mBodies w)"
  shows "distinct (other_shapes w b)"
  unfolding other_shapes_def
proof (rule distinct_concat_map)
  show "distinct (other_bodies w b)"
    using assms(2) by (simp add: other_bodies_def)
  show "distinct (shapes w b')" for b'
    using assms(1) by (rule shapes_distinct)
  show "set (shapes w x) \<inter> set (shapes w y) = {}"
    if "x \<in> set (other_bodies w b)" "y \<in> set (other_bodies w b)" "x \<noteq> y" for x y
    using that assms(3) by (intro shapes_disjoint[OF assms(1)]) (auto simp: other_bodies_def list_all_iff)
qed

lemma shapes_not_other:
  assumes "scene_ok w" and "attached w b" and "list_all (attached w) (mBodies w)"
    and "x \<in> set (shapes w b)"
  shows "x \<notin> set (other_shapes w b)"
proof
  assume "x \<in> set (other_shapes w b)"
  then obtain b' where b': "b' \<in> set (mBodies w)" "b' \<noteq> b" "x \<in> set (shapes w b')"
    by (auto simp: other_shapes_def other_bodies_def)
  with assms(3) have "attached w b'" by (simp add: list_all_iff)
  from shapes_disjoint[OF assms(1,2) this] b' assms(4) show False by auto
qed

lemma entry_ok_touches:
  "entry_ok w e \<Longrightarrow> touches x e \<Longrightarrow> \<exists>b \<in> set (mBodies w). x \<in> set (shapes w b)"
  by (cases e) auto

lemma keys_append_many:
  assumes "distinct (map entry_key es)" and "distinct (other_shapes w b)" and "distinct cs"
    and "set cs \<inter> set (other_shapes w b) = {}"
    and "\<forall>e \<in> set es. \<forall>c \<in> set cs. \<not> touches c e"
  shows "distinct (map entry_key (es @ concat (map (\<lambda>c. new_entries w c b) cs)))"
  using assms
proof (induction cs arbitrary: es)
  case Nil
  then show ?case by simp
next
  case (Cons c cs)
  have 1: "distinct (map entry_key (es @ new_entries w c b))"
    using Cons.prems(1,2,5) by (intro keys_append) auto
  have 2: "\<forall>e \<in> set (es @ new_entries w c b). \<forall>c' \<in> set cs. \<not> touches c' e"
  proof (intro ballI)
    fix e c' assume e: "e \<in> set (es @ new_entries w c b)" and c': "c' \<in> set cs"
    show "\<not> touches c' e"
    proof (cases "e \<in> set es")
      case True
      with Cons.prems(5) c' show ?thesis by simp
    next
      case False
      with e have n: "e \<in> set (new_entries w c b)" by simp
      from Cons.prems(3,4) c' have "c' \<noteq> c" "c' \<notin> set (other_shapes w b)" by auto
      with new_entries_touch[OF n] show ?thesis by blast
    qed
  qed
  from Cons.IH[OF 1 Cons.prems(2) _ _ 2] Cons.prems(3,4) show ?case by simp
qed

subsection \<open>\<open>__addBody\<close> and \<open>__removeBody\<close>\<close>

lemma clear_body_pairs_frame:
  "entries (clear_body_pairs b w) = entries w" "pool_ok (clear_body_pairs b w) = pool_ok w"
  "scene_of (clear_body_pairs b w) = scene_of w"
  by (auto simp: clear_body_pairs_def entries_def entry_def[abs_def] pool_ok_def all_pairs_def
        scene_of_def fun_eq_iff)

lemma addPairs_fold:
  assumes "pool_ok w"
  shows "entries (foldl (\<lambda>w' c. addPairs w' c b) w cs) =
           entries w @ concat (map (\<lambda>c. new_entries w c b) cs) \<and>
         pool_ok (foldl (\<lambda>w' c. addPairs w' c b) w cs) \<and>
         scene_of (foldl (\<lambda>w' c. addPairs w' c b) w cs) = scene_of w"
  using assms
proof (induction cs arbitrary: w)
  case Nil
  then show ?case by simp
next
  case (Cons c cs)
  note a = addPairs_effect[OF Cons.prems, of c b]
  have n: "new_entries (addPairs w c b) c' b = new_entries w c' b" for c'
    by (rule new_entries_scene[OF a(3)])
  from Cons.IH[OF a(2)] show ?case
    by (simp add: a(1) a(3) n)
qed

lemma addBody_shapes:
  "addBody w b =
     (foldl (\<lambda>w' c. addPairs w' c b) (clear_body_pairs b w) (shapes w b))
       \<lparr>mBodies := mBodies (foldl (\<lambda>w' c. addPairs w' c b) (clear_body_pairs b w) (shapes w b))
                    @ [b]\<rparr>"
  by (simp add: addBody_def Let_def shapes_def clear_body_pairs_def split: list.splits)

lemma removePairs_fold:
  assumes "pool_ok w"
  shows "entries (foldl removePairs w cs) =
           filter (\<lambda>e. \<forall>c \<in> set cs. \<not> touches c e) (entries w) \<and>
         pool_ok (foldl removePairs w cs) \<and>
         scene_of (foldl removePairs w cs) = scene_of w"
  using assms
proof (induction cs arbitrary: w)
  case Nil
  then show ?case by simp
next
  case (Cons c cs)
  note a = removePairs_effect[OF Cons.prems, of c]
  from Cons.IH[OF a(2)] show ?case
    by (simp add: a(1) a(3) conj_commute)
qed

lemma removeBody_shapes:
  "removeBody w b =
     (clear_body_pairs b (foldl removePairs w (shapes w b)))
       \<lparr>mBodies := splice1 (mBodies (clear_body_pairs b (foldl removePairs w (shapes w b))))
                     (indexOf (mBodies (clear_body_pairs b (foldl removePairs w (shapes w b)))) b)\<rparr>"
  by (simp add: removeBody_def Let_def shapes_def split: list.splits)

lemma indexOf_range: "x \<in> set xs \<Longrightarrow> 0 \<le> indexOf xs x \<and> indexOf xs x < int (length xs)"
  by (induction xs) (auto simp: Let_def)

lemma splice1_indexOf: "x \<in> set xs \<Longrightarrow> splice1 xs (indexOf xs x) = remove1 x xs"
proof (induction xs)
  case Nil
  then show ?case by simp
next
  case (Cons y ys)
  show ?case
  proof (cases "y = x")
    case True
    then show ?thesis by (simp add: splice1_def)
  next
    case False
    with Cons.prems have m: "x \<in> set ys" by simp
    from indexOf_range[OF m] obtain i where i: "indexOf ys x = int i" "i < length ys"
      by (metis nat_less_iff zero_le_imp_eq_int of_nat_less_iff)
    from Cons.IH[OF m] have "take i ys @ drop (Suc i) ys = remove1 x ys"
      using i by (simp add: splice1_def)
    moreover have "nat (int i + 1) = Suc i" by simp
    ultimately show ?thesis using False i
      by (simp add: splice1_def Let_def)
  qed
qed

lemma new_entries_cases:
  assumes "e \<in> set (new_entries w c b)"
  obtains b' d where "b' \<in> set (mBodies w)" "b' \<noteq> b" "d \<in> set (shapes w b')"
    "e = (c, d, b, b') \<or> e = (d, c, b', b)"
  using assms by (auto simp: new_entries_def other_bodies_def orient_def split: if_splits)

lemma registry_okI:
  assumes "scene_ok w" "pool_ok w" "distinct (mBodies w)" "list_all (attached w) (mBodies w)"
    "distinct (map entry_key (entries w))" "\<And>e. e \<in> set (entries w) \<Longrightarrow> entry_ok w e"
  shows "registry_ok w"
  using assms by (simp add: registry_ok_def list_all_iff)

lemma registry_okD:
  assumes "registry_ok w"
  shows "scene_ok w" "pool_ok w" "distinct (mBodies w)" "list_all (attached w) (mBodies w)"
    "distinct (map entry_key (entries w))" "\<And>e. e \<in> set (entries w) \<Longrightarrow> entry_ok w e"
  using assms by (simp_all add: registry_ok_def list_all_iff)

lemma active_attached: "registry_ok w \<Longrightarrow> b \<in> set (mBodies w) \<Longrightarrow> attached w b"
  by (simp add: registry_ok_def list_all_iff)

text \<open>No maintained pair touches a shape of an attached body that is not active.\<close>

lemma inactive_untouched:
  assumes "registry_ok w" and "attached w b" and "b \<notin> set (mBodies w)"
    and "e \<in> set (entries w)" and "x \<in> set (shapes w b)"
  shows "\<not> touches x e"
proof
  assume "touches x e"
  with registry_okD(6)[OF assms(1,4)] obtain b' where
    b': "b' \<in> set (mBodies w)" "x \<in> set (shapes w b')"
    by (blast dest: entry_ok_touches)
  with assms(3) have "b \<noteq> b'" by auto
  from shapes_disjoint[OF registry_okD(1)[OF assms(1)] assms(2) active_attached[OF assms(1) b'(1)] this]
    assms(5) b'(2) show False by auto
qed

lemma mBodies_update_frame:
  "entries (w\<lparr>mBodies := bs\<rparr>) = entries w" "pool_ok (w\<lparr>mBodies := bs\<rparr>) = pool_ok w"
  "scene_ok (w\<lparr>mBodies := bs\<rparr>) = scene_ok w" "shapes (w\<lparr>mBodies := bs\<rparr>) = shapes w"
  "attached (w\<lparr>mBodies := bs\<rparr>) = attached w"
  by (auto simp: entries_def entry_def[abs_def] pool_ok_def all_pairs_def scene_ok_def
        shapes_def attached_def fun_eq_iff split: list.splits)

lemma addBody_ok:
  assumes r: "registry_ok w" and n: "b \<notin> set (mBodies w)" and a: "attached w b"
  shows "registry_ok (addBody w b)"
proof -
  note d = registry_okD[OF r]
  let ?w1 = "clear_body_pairs b w"
  let ?w2 = "foldl (\<lambda>w' c. addPairs w' c b) ?w1 (shapes w b)"
  let ?w' = "?w2\<lparr>mBodies := mBodies w @ [b]\<rparr>"
  note c = clear_body_pairs_frame[of b w]
  from d(2) have p1: "pool_ok ?w1" by (simp add: c)
  from addPairs_fold[OF p1, of b "shapes w b"]
  have e2: "entries ?w2 = entries w @ concat (map (\<lambda>c. new_entries w c b) (shapes w b))"
    and p2: "pool_ok ?w2" and s2: "scene_of ?w2 = scene_of w"
    by (simp_all add: c new_entries_scene[OF c(3)])
  have m2: "mBodies ?w2 = mBodies w" by (rule mBodies_scene[OF s2])
  have w': "addBody w b = ?w'" unfolding addBody_shapes m2 by (rule refl)
  have m': "mBodies ?w' = mBodies w @ [b]" by simp
  have sh: "shapes ?w' = shapes w"
    by (simp add: mBodies_update_frame shapes_scene_all[OF s2])
  have at: "attached ?w' = attached w"
    by (simp add: mBodies_update_frame attached_scene[OF s2])
  show ?thesis unfolding w'
  proof (rule registry_okI)
    show "scene_ok ?w'" using d(1) by (simp add: mBodies_update_frame scene_ok_scene[OF s2])
    show "pool_ok ?w'" using p2 by (simp add: mBodies_update_frame)
    show "distinct (mBodies ?w')" using d(3) n by simp
    show "list_all (attached ?w') (mBodies ?w')" unfolding at m' using d(4) a by simp
    show "distinct (map entry_key (entries ?w'))"
      unfolding mBodies_update_frame e2
    proof (rule keys_append_many)
      show "distinct (map entry_key (entries w))" by (rule d(5))
      show "distinct (other_shapes w b)" by (rule other_shapes_distinct[OF d(1,3,4)])
      show "distinct (shapes w b)" by (rule shapes_distinct[OF d(1)])
      show "set (shapes w b) \<inter> set (other_shapes w b) = {}"
        using shapes_not_other[OF d(1) a d(4)] by auto
      show "\<forall>e \<in> set (entries w). \<forall>c \<in> set (shapes w b). \<not> touches c e"
        using inactive_untouched[OF r a n] by blast
    qed
    show "entry_ok ?w' e" if "e \<in> set (entries ?w')" for e
    proof (cases "e \<in> set (entries w)")
      case True
      from d(6)[OF this] show ?thesis
        by (cases e) (simp add: sh)
    next
      case False
      with that obtain c where c: "c \<in> set (shapes w b)" and e: "e \<in> set (new_entries w c b)"
        by (auto simp: mBodies_update_frame e2)
      from e show ?thesis
      proof (rule new_entries_cases)
        fix b' d assume "b' \<in> set (mBodies w)" "b' \<noteq> b" "d \<in> set (shapes w b')"
          "e = (c, d, b, b') \<or> e = (d, c, b', b)"
        with c show ?thesis by (auto simp: sh)
      qed
    qed
  qed
qed

lemma removeBody_ok:
  assumes r: "registry_ok w" and m: "b \<in> set (mBodies w)"
  shows "registry_ok (removeBody w b)"
proof -
  note d = registry_okD[OF r]
  let ?w1 = "foldl removePairs w (shapes w b)"
  let ?w2 = "clear_body_pairs b ?w1"
  let ?w' = "?w2\<lparr>mBodies := remove1 b (mBodies w)\<rparr>"
  from removePairs_fold[OF d(2), of "shapes w b"]
  have e1: "entries ?w1 = filter (\<lambda>e. \<forall>c \<in> set (shapes w b). \<not> touches c e) (entries w)"
    and p1: "pool_ok ?w1" and s1: "scene_of ?w1 = scene_of w"
    by blast+
  note c = clear_body_pairs_frame[of b ?w1]
  have s2: "scene_of ?w2 = scene_of w" by (simp add: c s1)
  have m2: "mBodies ?w2 = mBodies w" by (rule mBodies_scene[OF s2])
  have w': "removeBody w b = ?w'"
    unfolding removeBody_shapes m2 using m by (simp add: splice1_indexOf)
  have sh: "shapes ?w' = shapes w"
    by (simp add: mBodies_update_frame shapes_scene_all[OF s2])
  have at: "attached ?w' = attached w"
    by (simp add: mBodies_update_frame attached_scene[OF s2])
  have e': "entries ?w' = filter (\<lambda>e. \<forall>c \<in> set (shapes w b). \<not> touches c e) (entries w)"
    by (simp add: mBodies_update_frame c e1)
  show ?thesis unfolding w'
  proof (rule registry_okI)
    show "scene_ok ?w'" using d(1) by (simp add: mBodies_update_frame scene_ok_scene[OF s2])
    show "pool_ok ?w'" using p1 by (simp add: mBodies_update_frame c)
    show "distinct (mBodies ?w')" using d(3) by simp
    have "mBodies ?w' = remove1 b (mBodies w)" by simp
    then show "list_all (attached ?w') (mBodies ?w')"
      unfolding at using d(3,4) by (simp add: list_all_iff)
    show "distinct (map entry_key (entries ?w'))"
      unfolding e' using d(5) by (rule distinct_map_filter)
    show "entry_ok ?w' e" if "e \<in> set (entries ?w')" for e
    proof -
      from that have i: "e \<in> set (entries w)"
        and t: "\<And>c. c \<in> set (shapes w b) \<Longrightarrow> \<not> touches c e"
        by (auto simp: e')
      obtain c1 c2 bA bB where e: "e = (c1, c2, bA, bB)" by (cases e)
      from d(6)[OF i] have ok: "bA \<noteq> bB" "bA \<in> set (mBodies w)" "bB \<in> set (mBodies w)"
        "c1 \<in> set (shapes w bA)" "c2 \<in> set (shapes w bB)"
        by (simp_all add: e)
      from t[of c1] t[of c2] ok(4,5) have "bA \<noteq> b" "bB \<noteq> b"
        by (auto simp: e)
      with ok d(3) show ?thesis
        by (simp add: e sh)
    qed
  qed
qed

subsection \<open>\<open>__addCollider\<close> and \<open>__removeCollider\<close>\<close>

lemma setColliders_frame:
  "entries (setColliders g cs w) = entries w" "pool_ok (setColliders g cs w) = pool_ok w"
  "mBodies (setColliders g cs w) = mBodies w" "attached (setColliders g cs w) = attached w"
  "rigidBodyOf (setColliders g cs w) = rigidBodyOf w"
  "bodyHeap (setColliders g cs w) = bodyHeap w"
  "mCollidersCache (setColliders g cs w) = (mCollidersCache w)(g := cs)"
  by (auto simp: setColliders_def entries_def entry_def[abs_def] pool_ok_def all_pairs_def
        attached_def fun_eq_iff)

lemma shapes_setColliders_other:
  "gameObject (bodyHeap w b) \<noteq> g \<Longrightarrow> shapes (setColliders g cs w) b = shapes w b"
  by (simp add: shapes_def setColliders_frame split: list.splits)

lemma shapes_setColliders_same:
  "gameObject (bodyHeap w b) = g \<Longrightarrow>
   shapes (setColliders g cs w) b = (if cs = [] then [mCollider (bodyHeap w b)] else cs)"
  by (simp add: shapes_def setColliders_frame split: list.splits)

lemma shapes_carried:
  "gameObject (bodyHeap w b) = g \<Longrightarrow>
   shapes w b =
     (if mCollidersCache w g = [] then [mCollider (bodyHeap w b)] else mCollidersCache w g)"
  by (simp add: shapes_def split: list.splits)

lemma carrier_unique:
  assumes "registry_ok w" and "b \<in> set (mBodies w)" and "gameObject (bodyHeap w b) = g"
  shows "rigidBodyOf w g = Some b"
  using active_attached[OF assms(1,2)] assms(3) by (simp add: attached_def)

lemma carried_gameObject:
  "scene_ok w \<Longrightarrow> rigidBodyOf w g = Some b \<Longrightarrow> gameObject (bodyHeap w b) = g"
  by (simp add: scene_ok_def)

lemma scene_ok_attach:
  assumes "scene_ok w" and "\<forall>g'. c \<notin> set (mCollidersCache w g')"
    and "\<forall>b. mCollider (bodyHeap w b) \<noteq> c"
  shows "scene_ok (setColliders g (mCollidersCache w g @ [c]) w)"
  using assms unfolding scene_ok_def setColliders_frame
  by (auto simp: disjoint_iff)

lemma scene_ok_detach:
  assumes "scene_ok w"
  shows "scene_ok (setColliders g (remove1 c (mCollidersCache w g)) w)"
  using assms unfolding scene_ok_def setColliders_frame
  by (auto simp: disjoint_iff dest: notin_set_remove1)

text \<open>A collider change on a game object whose body is not active.\<close>

lemma setColliders_inactive_ok:
  assumes r: "registry_ok w" and s: "scene_ok (setColliders g cs w)"
    and i: "\<And>b. b \<in> set (mBodies w) \<Longrightarrow> gameObject (bodyHeap w b) \<noteq> g"
  shows "registry_ok (setColliders g cs w)"
proof (rule registry_okI)
  note d = registry_okD[OF r]
  show "scene_ok (setColliders g cs w)" by (rule s)
  show "pool_ok (setColliders g cs w)" using d(2) by (simp add: setColliders_frame)
  show "distinct (mBodies (setColliders g cs w))" using d(3) by (simp add: setColliders_frame)
  show "list_all (attached (setColliders g cs w)) (mBodies (setColliders g cs w))"
    using d(4) by (simp add: setColliders_frame)
  show "distinct (map entry_key (entries (setColliders g cs w)))"
    using d(5) by (simp add: setColliders_frame)
  show "entry_ok (setColliders g cs w) e" if "e \<in> set (entries (setColliders g cs w))" for e
  proof -
    obtain c1 c2 bA bB where e: "e = (c1, c2, bA, bB)" by (cases e)
    from that d(6)[of e] have ok: "bA \<noteq> bB" "bA \<in> set (mBodies w)" "bB \<in> set (mBodies w)"
      "c1 \<in> set (shapes w bA)" "c2 \<in> set (shapes w bB)"
      by (simp_all add: e setColliders_frame)
    with i[of bA] i[of bB] show ?thesis
      by (simp add: e setColliders_frame shapes_setColliders_other)
  qed
qed

lemma fresh_untouched:
  assumes "registry_ok w" and "\<forall>g'. c \<notin> set (mCollidersCache w g')"
    and "\<forall>b. mCollider (bodyHeap w b) \<noteq> c" and "e \<in> set (entries w)"
  shows "\<not> touches c e"
proof
  assume "touches c e"
  with registry_okD(6)[OF assms(1,4)] obtain b where "c \<in> set (shapes w b)"
    by (blast dest: entry_ok_touches)
  from shapes_cases[OF this] assms(2,3) show False by auto
qed

lemma default_untouched:
  assumes r: "registry_ok w" and b: "b \<in> set (mBodies w)"
    and n: "mCollidersCache w (gameObject (bodyHeap w b)) \<noteq> []" and e: "e \<in> set (entries w)"
  shows "\<not> touches (mCollider (bodyHeap w b)) e"
proof
  note d = registry_okD[OF r]
  assume "touches (mCollider (bodyHeap w b)) e"
  with d(6)[OF e] obtain b' where b': "mCollider (bodyHeap w b) \<in> set (shapes w b')"
    by (blast dest: entry_ok_touches)
  from d(1) have n3: "\<And>b g. mCollider (bodyHeap w b) \<notin> set (mCollidersCache w g)"
    and i: "mCollider (bodyHeap w b) = mCollider (bodyHeap w b') \<Longrightarrow> b = b'"
    by (auto simp: scene_ok_def)
  from shapes_cases[OF b'] n3 i have "b = b'" by auto
  moreover have "shapes w b = mCollidersCache w (gameObject (bodyHeap w b))"
    using n by (simp add: shapes_carried)
  ultimately show False
    using b' n3[of b "gameObject (bodyHeap w b)"] by simp
qed

lemma addCollider_active:
  assumes "rigidBodyOf w g = Some body" and "body \<in> set (mBodies w)"
    and "mCollidersCache (addPairs w c body) g = cs"
  shows "addCollider w g c =
     (if length cs = 1
      then removePairs (addPairs w c body) (mCollider (bodyHeap (addPairs w c body) body))
      else addPairs w c body)"
  using assms by (simp add: addCollider_def indexOf_absent Let_def)

lemma addShape_ok:
  assumes r: "registry_ok w" and f1: "\<forall>g'. c \<notin> set (mCollidersCache w g')"
    and f2: "\<forall>b. mCollider (bodyHeap w b) \<noteq> c"
  shows "registry_ok (addCollider (setColliders g (mCollidersCache w g @ [c]) w) g c)"
proof -
  note d = registry_okD[OF r]
  let ?w1 = "setColliders g (mCollidersCache w g @ [c]) w"
  note fr = setColliders_frame[of g "mCollidersCache w g @ [c]" w]
  have s1: "scene_ok ?w1" by (rule scene_ok_attach[OF d(1) f1 f2])
  show ?thesis
  proof (cases "\<exists>body. rigidBodyOf w g = Some body \<and> body \<in> set (mBodies w)")
    case False
    then have "addCollider ?w1 g c = ?w1"
      by (auto simp: addCollider_def fr indexOf_absent split: option.splits)
    moreover have "registry_ok ?w1"
    proof (rule setColliders_inactive_ok[OF r s1])
      fix b assume "b \<in> set (mBodies w)"
      with False carrier_unique[OF r this] show "gameObject (bodyHeap w b) \<noteq> g" by auto
    qed
    ultimately show ?thesis by simp
  next
    case True
    then obtain body where body: "rigidBodyOf w g = Some body" "body \<in> set (mBodies w)" by blast
    have gb: "gameObject (bodyHeap w body) = g" by (rule carried_gameObject[OF d(1) body(1)])
    have only: "b = body" if "b \<in> set (mBodies w)" "gameObject (bodyHeap w b) = g" for b
      using carrier_unique[OF r that] body(1) by simp
    let ?w2 = "addPairs ?w1 c body"
    from d(2) have p1: "pool_ok ?w1" by (simp add: fr)
    note a = addPairs_effect[OF p1, of c body]
    have e2: "entries ?w2 = entries w @ new_entries ?w1 c body" by (simp add: a(1) fr)
    have sh1: "shapes ?w1 body = mCollidersCache w g @ [c]"
      by (simp add: shapes_setColliders_same[OF gb])
    have k2: "distinct (map entry_key (entries ?w2))"
      unfolding e2
    proof (rule keys_append)
      show "distinct (map entry_key (entries w))" by (rule d(5))
      show "distinct (other_shapes ?w1 body)"
        using d(3,4) by (intro other_shapes_distinct[OF s1]) (simp_all add: fr)
      show "\<forall>e \<in> set (entries w). \<not> touches c e"
        using fresh_untouched[OF r f1 f2] by blast
    qed
    have new_ok: "entry_ok ?w1 e" if "e \<in> set (new_entries ?w1 c body)" for e
      using that by (rule new_entries_ok) (simp_all add: fr body sh1)
    have old_ok: "entry_ok ?w1 e"
      if e: "e \<in> set (entries w)"
        and t: "mCollidersCache w g = [] \<Longrightarrow> \<not> touches (mCollider (bodyHeap w body)) e" for e
    proof -
      obtain c1 c2 bA bB where e': "e = (c1, c2, bA, bB)" by (cases e)
      from d(6)[OF e] have ok: "bA \<noteq> bB" "bA \<in> set (mBodies w)" "bB \<in> set (mBodies w)"
        "c1 \<in> set (shapes w bA)" "c2 \<in> set (shapes w bB)"
        by (simp_all add: e')
      have "x \<in> set (shapes ?w1 b)" if b: "b \<in> set (mBodies w)" and x: "x \<in> set (shapes w b)"
        and tx: "touches x e" for x b
      proof (cases "gameObject (bodyHeap w b) = g")
        case False
        with x show ?thesis by (simp add: shapes_setColliders_other)
      next
        case True
        with only[OF b] have bb: "b = body" by simp
        show ?thesis
        proof (cases "mCollidersCache w g = []")
          case True
          with x gb have "x = mCollider (bodyHeap w body)" by (simp add: bb shapes_carried)
          with t[OF True] tx show ?thesis by simp
        next
          case False
          with x gb show ?thesis by (simp add: bb sh1 shapes_carried)
        qed
      qed
      from this[OF ok(2,4)] this[OF ok(3,5)] ok show ?thesis
        by (simp add: e' fr)
    qed
    have rb1: "rigidBodyOf ?w1 g = Some body" and mb1: "body \<in> set (mBodies ?w1)"
      using body by (simp_all add: fr)
    have "mCollidersCache ?w2 g = mCollidersCache w g @ [c]"
      by (simp add: mCollidersCache_scene[OF a(3)] fr)
    note ac = addCollider_active[OF rb1 mb1 this]
    show ?thesis
    proof (cases "mCollidersCache w g = []")
      case False
      with ac have fin: "addCollider ?w1 g c = ?w2"
        by simp
      show ?thesis unfolding fin
      proof (rule registry_okI)
        show "scene_ok ?w2" using s1 by (simp add: scene_ok_scene[OF a(3)])
        show "pool_ok ?w2" by (rule a(2))
        show "distinct (mBodies ?w2)" using d(3) by (simp add: mBodies_scene[OF a(3)] fr)
        show "list_all (attached ?w2) (mBodies ?w2)"
          using d(4) by (simp add: mBodies_scene[OF a(3)] attached_scene[OF a(3)] fr)
        show "distinct (map entry_key (entries ?w2))" by (rule k2)
        show "entry_ok ?w2 e" if "e \<in> set (entries ?w2)" for e
          unfolding entry_ok_scene[OF a(3)]
          using that old_ok[of e] new_ok[of e] False by (auto simp: e2)
      qed
    next
      case True
      let ?d = "mCollider (bodyHeap w body)"
      let ?w3 = "removePairs ?w2 ?d"
      have dd: "mCollider (bodyHeap ?w2 body) = ?d"
        using a(3) by (simp add: scene_of_def fun_eq_iff fr)
      have l: "length (mCollidersCache w g @ [c]) = 1" using True by simp
      have fin: "addCollider ?w1 g c = ?w3"
        by (simp only: ac dd l if_True refl simp_thms)
      note b3 = removePairs_effect[OF a(2), of ?d]
      have s3: "scene_of ?w3 = scene_of ?w1" by (simp add: b3(3) a(3))
      show ?thesis unfolding fin
      proof (rule registry_okI)
        show "scene_ok ?w3" using s1 by (simp add: scene_ok_scene[OF s3])
        show "pool_ok ?w3" by (rule b3(2))
        show "distinct (mBodies ?w3)" using d(3) by (simp add: mBodies_scene[OF s3] fr)
        show "list_all (attached ?w3) (mBodies ?w3)"
          using d(4) by (simp add: mBodies_scene[OF s3] attached_scene[OF s3] fr)
        show "distinct (map entry_key (entries ?w3))"
          unfolding b3(1) using k2 by (rule distinct_map_filter)
        show "entry_ok ?w3 e" if "e \<in> set (entries ?w3)" for e
          unfolding entry_ok_scene[OF s3]
          using that old_ok[of e] new_ok[of e] by (auto simp: b3(1) e2)
      qed
    qed
  qed
qed

text \<open>
  \<open>__removeCollider\<close> called with the game object and the collider, the two arguments of
  its signature, after the scene graph has detached the collider.
\<close>

lemma removeShape_ok:
  assumes r: "registry_ok w" and m: "c \<in> set (mCollidersCache w g)"
  shows "registry_ok
           (world_after (setColliders g (remove1 c (mCollidersCache w g)) w)
              (removeCollider (setColliders g (remove1 c (mCollidersCache w g)) w)
                 (GameObjectV g) (ColliderV c)))"
proof -
  note d = registry_okD[OF r]
  let ?cs = "remove1 c (mCollidersCache w g)"
  let ?w1 = "setColliders g ?cs w"
  let ?r = "world_after ?w1 (removeCollider ?w1 (GameObjectV g) (ColliderV c))"
  note fr = setColliders_frame[of g ?cs w]
  have s1: "scene_ok ?w1" by (rule scene_ok_detach[OF d(1)])
  have dc: "distinct (mCollidersCache w g)" using d(1) by (simp add: scene_ok_def)
  show ?thesis
  proof (cases "\<exists>body. rigidBodyOf w g = Some body \<and> body \<in> set (mBodies w)")
    case False
    then have "?r = ?w1"
      by (auto simp: removeCollider_def fr indexOf_absent world_after_def Let_def
            split: option.splits)
    moreover have "registry_ok ?w1"
    proof (rule setColliders_inactive_ok[OF r s1])
      fix b assume "b \<in> set (mBodies w)"
      with False carrier_unique[OF r this] show "gameObject (bodyHeap w b) \<noteq> g" by auto
    qed
    ultimately show ?thesis by simp
  next
    case True
    then obtain body where body: "rigidBodyOf w g = Some body" "body \<in> set (mBodies w)" by blast
    have gb: "gameObject (bodyHeap w body) = g" by (rule carried_gameObject[OF d(1) body(1)])
    have only: "b = body" if "b \<in> set (mBodies w)" "gameObject (bodyHeap w b) = g" for b
      using carrier_unique[OF r that] body(1) by simp
    let ?w2 = "removePairs ?w1 c"
    from d(2) have p1: "pool_ok ?w1" by (simp add: fr)
    note a = removePairs_effect[OF p1, of c]
    have e2: "entries ?w2 = filter (\<lambda>e. \<not> touches c e) (entries w)" by (simp add: a(1) fr)
    have k2: "distinct (map entry_key (entries ?w2))"
      unfolding e2 using d(5) by (rule distinct_map_filter)
    have sh1: "shapes ?w1 body = (if ?cs = [] then [mCollider (bodyHeap w body)] else ?cs)"
      by (simp add: shapes_setColliders_same[OF gb])
    have old_ok: "entry_ok ?w1 e \<and> (?cs = [] \<longrightarrow> \<not> touches (mCollider (bodyHeap w body)) e)"
      if e: "e \<in> set (entries ?w2)" for e
    proof -
      from e have e0: "e \<in> set (entries w)" and nt: "\<not> touches c e" by (simp_all add: e2)
      obtain c1 c2 bA bB where e': "e = (c1, c2, bA, bB)" by (cases e)
      from d(6)[OF e0] have ok: "bA \<noteq> bB" "bA \<in> set (mBodies w)" "bB \<in> set (mBodies w)"
        "c1 \<in> set (shapes w bA)" "c2 \<in> set (shapes w bB)"
        by (simp_all add: e')
      have "x \<in> set (shapes ?w1 b)" if b: "b \<in> set (mBodies w)" and x: "x \<in> set (shapes w b)"
        and tx: "x \<noteq> c" for x b
      proof (cases "gameObject (bodyHeap w b) = g")
        case False
        with x show ?thesis by (simp add: shapes_setColliders_other)
      next
        case True
        with only[OF b] have bb: "b = body" by simp
        from m have "mCollidersCache w g \<noteq> []" by auto
        with x gb have "x \<in> set (mCollidersCache w g)" by (simp add: bb shapes_carried)
        with tx dc have "x \<in> set ?cs" by simp
        then show ?thesis by (auto simp: bb sh1)
      qed
      from this[OF ok(2,4)] this[OF ok(3,5)] ok nt have "entry_ok ?w1 e"
        by (simp add: e' fr)
      moreover have "\<not> touches (mCollider (bodyHeap w body)) e"
        using m gb by (intro default_untouched[OF r body(2) _ e0]) auto
      ultimately show ?thesis by simp
    qed
    have dd: "mCollider (bodyHeap ?w2 body) = mCollider (bodyHeap w body)"
      using a(3) by (simp add: scene_of_def fun_eq_iff fr)
    have "removeCollider ?w1 (GameObjectV g) (ColliderV c) =
        Inr (if ?cs = [] then addCollider ?w2 g (mCollider (bodyHeap ?w2 body)) else ?w2)"
      using body by (simp add: removeCollider_def fr indexOf_absent Let_def
          mCollidersCache_scene[OF a(3)])
    note rc = this[unfolded dd]
    show ?thesis
    proof (cases "?cs = []")
      case False
      with rc have fin: "?r = ?w2"
        by (simp add: world_after_def Let_def)
      show ?thesis unfolding fin
      proof (rule registry_okI)
        show "scene_ok ?w2" using s1 by (simp add: scene_ok_scene[OF a(3)])
        show "pool_ok ?w2" by (rule a(2))
        show "distinct (mBodies ?w2)" using d(3) by (simp add: mBodies_scene[OF a(3)] fr)
        show "list_all (attached ?w2) (mBodies ?w2)"
          using d(4) by (simp add: mBodies_scene[OF a(3)] attached_scene[OF a(3)] fr)
        show "distinct (map entry_key (entries ?w2))" by (rule k2)
        show "entry_ok ?w2 e" if "e \<in> set (entries ?w2)" for e
          unfolding entry_ok_scene[OF a(3)] using old_ok[OF that] by simp
      qed
    next
      case True
      let ?d = "mCollider (bodyHeap w body)"
      let ?w3 = "addPairs ?w2 ?d body"
      note b3 = addPairs_effect[OF a(2), of ?d body]
      have s3: "scene_of ?w3 = scene_of ?w1" by (simp add: b3(3) a(3))
      have rb2: "rigidBodyOf ?w2 g = Some body" and mb2: "body \<in> set (mBodies ?w2)"
        using body by (simp_all add: rigidBodyOf_scene[OF a(3)] mBodies_scene[OF a(3)] fr)
      have "mCollidersCache ?w3 g = ?cs"
        by (simp add: mCollidersCache_scene[OF s3] fr)
      note ac = addCollider_active[OF rb2 mb2 this]
      have l0: "(length ?cs = 1) = False" using True by simp
      have "addCollider ?w2 g ?d = ?w3"
        by (simp only: ac l0 if_False)
      with rc True have fin: "?r = ?w3"
        by (simp add: world_after_def Let_def)
      have e3: "entries ?w3 = entries ?w2 @ new_entries ?w1 ?d body"
        by (simp add: b3(1) new_entries_scene[OF a(3)])
      have mb1: "body \<in> set (mBodies ?w1)" using body by (simp add: fr)
      have ds: "?d \<in> set (shapes ?w1 body)" unfolding sh1 using True by simp
      have new_ok: "entry_ok ?w1 e" if "e \<in> set (new_entries ?w1 ?d body)" for e
        using that mb1 ds by (rule new_entries_ok)
      show ?thesis unfolding fin
      proof (rule registry_okI)
        show "scene_ok ?w3" using s1 by (simp add: scene_ok_scene[OF s3])
        show "pool_ok ?w3" by (rule b3(2))
        show "distinct (mBodies ?w3)" using d(3) by (simp add: mBodies_scene[OF s3] fr)
        show "list_all (attached ?w3) (mBodies ?w3)"
          using d(4) by (simp add: mBodies_scene[OF s3] attached_scene[OF s3] fr)
        show "distinct (map entry_key (entries ?w3))"
          unfolding e3
        proof (rule keys_append)
          show "distinct (map entry_key (entries ?w2))" by (rule k2)
          show "distinct (other_shapes ?w1 body)"
            using d(3,4) by (intro other_shapes_distinct[OF s1]) (simp_all add: fr)
          show "\<forall>e \<in> set (entries ?w2). \<not> touches ?d e"
            using old_ok True by blast
        qed
        show "entry_ok ?w3 e" if "e \<in> set (entries ?w3)" for e
          unfolding entry_ok_scene[OF s3]
          using that old_ok[of e] new_ok[of e] by (auto simp: e3)
      qed
    qed
  qed
qed

subsection \<open>What the invariant gives\<close>

lemma unordered_pair_key: "{c, d} = {c', d'} \<longleftrightarrow> Pair_id c d = Pair_id c' d'"
  by (auto simp: Pair_id_eq_iff doubleton_eq_iff)

lemma registry_ok_unique:
  assumes "registry_ok w"
  shows "distinct (map (\<lambda>p. {pair_a (pairHeap w p), pair_b (pairHeap w p)}) (mPairs w))"
proof -
  from assms have "distinct (map (\<lambda>p. entry_key (entry w p)) (mPairs w))"
    by (simp add: registry_ok_def entries_def comp_def)
  then have "distinct (mPairs w)"
    and "inj_on (\<lambda>p. Pair_id (pair_a (pairHeap w p)) (pair_b (pairHeap w p))) (set (mPairs w))"
    by (simp_all add: distinct_map entry_def)
  then show ?thesis
    by (auto simp: distinct_map inj_on_def unordered_pair_key)
qed

lemma registry_ok_owners:
  assumes r: "registry_ok w" and p: "p \<in> set (mPairs w)"
  shows "bodyA (pairHeap w p) \<noteq> bodyB (pairHeap w p)"
    and "attached w b \<Longrightarrow>
         \<not> (pair_a (pairHeap w p) \<in> set (shapes w b) \<and> pair_b (pairHeap w p) \<in> set (shapes w b))"
proof -
  note d = registry_okD[OF r]
  from p have "entry w p \<in> set (entries w)" by (simp add: entries_def)
  from d(6)[OF this] have ok: "bodyA (pairHeap w p) \<noteq> bodyB (pairHeap w p)"
    "bodyA (pairHeap w p) \<in> set (mBodies w)" "bodyB (pairHeap w p) \<in> set (mBodies w)"
    "pair_a (pairHeap w p) \<in> set (shapes w (bodyA (pairHeap w p)))"
    "pair_b (pairHeap w p) \<in> set (shapes w (bodyB (pairHeap w p)))"
    by (simp_all add: entry_def)
  show "bodyA (pairHeap w p) \<noteq> bodyB (pairHeap w p)" by (rule ok(1))
  assume b: "attached w b"
  note aA = active_attached[OF r ok(2)] and aB = active_attached[OF r ok(3)]
  show "\<not> (pair_a (pairHeap w p) \<in> set (shapes w b) \<and> pair_b (pairHeap w p) \<in> set (shapes w b))"
  proof (cases "b = bodyA (pairHeap w p)")
    case True
    from shapes_disjoint[OF d(1) aA aB ok(1)] ok(5) show ?thesis
      unfolding True by auto
  next
    case False
    from shapes_disjoint[OF d(1) b aA False] ok(4) show ?thesis by auto
  qed
qed

end
